theory Spec2Isabelle
  imports Main
begin

section \<open>DriveGCS\_Sync: the webhook handler that mirrors Drive files into a bucket\<close>

text \<open>
  A shallow embedding of \<^verbatim>\<open>DriveGCS_Sync_handler.py\<close>. The two cloud SDKs are the
  program's environment: what a call to them answers is a parameter (\<open>drive_service\<close>,
  \<open>gcs_client\<close>, \<open>environment\<close>), and what the program does to them is explicit state
  (\<open>cloud\<close>: the requests sent so far and the objects of the bucket), passed through
  every function that talks to a service and returned updated. A Python \<^verbatim>\<open>None\<close> is
  \<open>None\<close>. A call to Drive returns, raises \<^verbatim>\<open>HttpError\<close>, or raises another exception
  (\<open>answer\<close>); an exception that leaves a function is the \<open>Inl\<close> of its result, with the
  text \<^verbatim>\<open>str(e)\<close>, and every \<^verbatim>\<open>except\<close> clause of the source is a branch.
\<close>

subsection \<open>Python's string and list operations\<close>

text \<open>\<^verbatim>\<open>s.split(c)\<close> for a one-character separator: never empty, \<^verbatim>\<open>''.split('/') == ['']\<close>.\<close>

fun str_split :: "char \<Rightarrow> string \<Rightarrow> string list" where
  "str_split c [] = [[]]"
| "str_split c (x # xs) =
     (if x = c then [] # str_split c xs
      else (case str_split c xs of [] \<Rightarrow> [[x]] | p # ps \<Rightarrow> (x # p) # ps))"

text \<open>\<^verbatim>\<open>sep.join(parts)\<close>.\<close>

fun str_join :: "string \<Rightarrow> string list \<Rightarrow> string" where
  "str_join sep [] = []"
| "str_join sep [p] = p"
| "str_join sep (p # q # ps) = p @ sep @ str_join sep (q # ps)"

text \<open>\<^verbatim>\<open>xs.index(x)\<close>: the first position of \<open>x\<close>; \<^verbatim>\<open>ValueError\<close> is \<open>None\<close>.\<close>

fun list_index :: "'a list \<Rightarrow> 'a \<Rightarrow> nat option" where
  "list_index [] x = None"
| "list_index (y # ys) x = (if y = x then Some 0 else map_option Suc (list_index ys x))"

definition startswith :: "string \<Rightarrow> string \<Rightarrow> bool" where
  "startswith s p = (take (length p) s = p)"

definition endswith :: "string \<Rightarrow> string \<Rightarrow> bool" where
  "endswith s e = (length e \<le> length s \<and> drop (length s - length e) s = e)"

subsection \<open>Configuration\<close>

record config =
  BUCKET_NAME :: string
  GCS_BASE_PATH :: string
  SHARED_FOLDER_ID :: string

definition deployed :: config where
  "deployed =
     \<lparr>BUCKET_NAME = ''testbucket1233455'',
      GCS_BASE_PATH = ''cogninest.ai/1 ANG Data Aggregator'',
      SHARED_FOLDER_ID = ''1-dFuPfkdYLlVS9VLgIehIGfh6ZcQLXF3''\<rparr>"

subsection \<open>The services and their state\<close>

text \<open>
  The fields of a \<^verbatim>\<open>files().get\<close> answer that the program reads. \<^verbatim>\<open>parents\<close> absent is
  the empty list (\<^verbatim>\<open>metadata.get('parents', [])\<close>), \<^verbatim>\<open>mimeType\<close> absent is \<open>None\<close>.
\<close>

record metadata =
  name :: string
  parents :: "string list"
  mimeType :: "string option"

text \<open>
  What a request to Drive does: it returns its value, it raises \<^verbatim>\<open>HttpError\<close>, or it raises
  any other exception \<open>e\<close> (a timeout, a transport error), kept as \<^verbatim>\<open>str(e)\<close>.
\<close>

datatype 'a answer = Returns 'a | HttpError | Raises string

text \<open>
  \<open>files_get\<close>: \<^verbatim>\<open>files().get(fileId=...).execute()\<close>.
  \<open>media\<close>: the download of a file, asked for with an export MIME type (\<^verbatim>\<open>export_media\<close>)
  or without one (\<^verbatim>\<open>get_media\<close>).
\<close>

record drive_service =
  files_get :: "string \<Rightarrow> metadata answer"
  media :: "string \<Rightarrow> string option \<Rightarrow> string answer"

text \<open>\<open>blob_raises bucket blob\<close>: an operation on that object raises an exception.\<close>

record gcs_client =
  blob_raises :: "string \<Rightarrow> string \<Rightarrow> bool"

text \<open>What \<^verbatim>\<open>authenticate_drive()\<close> and \<^verbatim>\<open>authenticate_gcs()\<close> return.\<close>

record environment =
  drive_auth :: "drive_service option"
  gcs_auth :: "gcs_client option"

record cloud =
  metadata_calls :: "string list"
  media_calls :: "(string \<times> string option) list"
  gcs_writes :: "(string \<times> string) list"
  blobs :: "string \<times> string \<Rightarrow> string option"

definition authenticate_drive :: "environment \<Rightarrow> drive_service option" where
  "authenticate_drive env = drive_auth env"

definition authenticate_gcs :: "environment \<Rightarrow> gcs_client option" where
  "authenticate_gcs env = gcs_auth env"

text \<open>\<^verbatim>\<open>except HttpError\<close> returns \<^verbatim>\<open>None\<close>; any other exception leaves the function.\<close>

definition get_file_metadata ::
  "drive_service \<Rightarrow> cloud \<Rightarrow> string \<Rightarrow> (string + metadata option) \<times> cloud" where
  "get_file_metadata drive s file_id =
     (case files_get drive file_id of
        Returns metadata \<Rightarrow> Inr (Some metadata)
      | HttpError \<Rightarrow> Inr None
      | Raises e \<Rightarrow> Inl e,
      s\<lparr>metadata_calls := metadata_calls s @ [file_id]\<rparr>)"

subsection \<open>The ancestor-chain walker\<close>

definition max_depth :: nat where
  "max_depth = 20"

text \<open>
  The \<^verbatim>\<open>while current_id and depth < max_depth\<close> loop of \<^verbatim>\<open>get_drive_path\<close>, with its
  three variables as arguments. Both \<^verbatim>\<open>break\<close>s leave with the parts collected so far; an
  exception raised by a fetch leaves the loop as \<open>Inl\<close>.
\<close>

function walk_parents ::
  "drive_service \<Rightarrow> cloud \<Rightarrow> string \<Rightarrow> nat \<Rightarrow> string list
     \<Rightarrow> (string + string list) \<times> cloud" where
  "walk_parents drive s current_id depth path_parts =
     (if current_id \<noteq> [] \<and> depth < max_depth then
        (case get_file_metadata drive s current_id of
           (Inl e, s') \<Rightarrow> (Inl e, s')
         | (Inr None, s') \<Rightarrow> (Inr path_parts, s')
         | (Inr (Some parent_metadata), s') \<Rightarrow>
             (case parents parent_metadata of
                [] \<Rightarrow> (Inr (path_parts @ [name parent_metadata]), s')
              | p # _ \<Rightarrow>
                  walk_parents drive s' p (depth + 1) (path_parts @ [name parent_metadata])))
      else (Inr path_parts, s))"
  by pat_completeness auto
termination
  by (relation "measure (\<lambda>(drive, s, current_id, depth, path_parts). max_depth - depth)") auto

declare walk_parents.simps [simp del]

text \<open>
  The body of \<^verbatim>\<open>get_drive_path\<close> is one \<^verbatim>\<open>try\<close> block: \<^verbatim>\<open>except Exception\<close> returns
  \<^verbatim>\<open>None\<close>, for the first fetch and for every fetch of the loop.
\<close>

definition get_drive_path :: "drive_service \<Rightarrow> cloud \<Rightarrow> string \<Rightarrow> string option \<times> cloud" where
  "get_drive_path drive s file_id =
     (case get_file_metadata drive s file_id of
        (Inl e, s') \<Rightarrow> (None, s')
      | (Inr None, s') \<Rightarrow> (None, s')
      | (Inr (Some metadata), s') \<Rightarrow>
          (case parents metadata of
             [] \<Rightarrow> (Some (name metadata), s')
           | p # _ \<Rightarrow>
               (case walk_parents drive s' p 0 [name metadata] of
                  (Inl e, s'') \<Rightarrow> (None, s'')
                | (Inr path_parts, s'') \<Rightarrow> (Some (str_join ''/'' (rev path_parts)), s''))))"

subsection \<open>The shared-root relativizer\<close>

text \<open>
  The result is the pair \<^verbatim>\<open>(file_name, folder_path)\<close>, each of which may be \<^verbatim>\<open>None\<close>.
  \<^verbatim>\<open>if not full_path\<close> is true of \<^verbatim>\<open>None\<close> and of the empty string. The body is one
  \<^verbatim>\<open>try\<close> block, and \<^verbatim>\<open>except Exception\<close> returns \<^verbatim>\<open>(None, None)\<close>.
\<close>

definition get_relative_path_from_shared_folder ::
  "drive_service \<Rightarrow> cloud \<Rightarrow> string \<Rightarrow> string \<Rightarrow> (string option \<times> string option) \<times> cloud" where
  "get_relative_path_from_shared_folder drive s file_id shared_folder_id =
     (case get_drive_path drive s file_id of
        (None, s1) \<Rightarrow> ((None, None), s1)
      | (Some full_path, s1) \<Rightarrow>
          if full_path = [] then ((None, None), s1)
          else
            (case get_file_metadata drive s1 shared_folder_id of
               (Inl e, s2) \<Rightarrow> ((None, None), s2)
             | (Inr None, s2) \<Rightarrow> ((None, None), s2)
             | (Inr (Some shared_folder_metadata), s2) \<Rightarrow>
                 (let shared_folder_name = name shared_folder_metadata;
                      path_parts = str_split CHR ''/'' full_path
                  in case list_index path_parts shared_folder_name of
                       Some shared_folder_index \<Rightarrow>
                         (let relative_parts = drop (shared_folder_index + 1) path_parts
                          in if relative_parts = [] then ((None, Some []), s2)
                             else
                               ((Some (last relative_parts),
                                 Some (if length relative_parts > 1
                                       then str_join ''/'' (butlast relative_parts) else [])),
                                s2))
                     | None \<Rightarrow>
                         ((Some (last path_parts),
                           Some (if length path_parts > 1
                                 then str_join ''/'' (butlast path_parts) else [])),
                          s2))))"

subsection \<open>Download, upload and the folder markers\<close>

definition export_formats :: "string \<Rightarrow> (string \<times> string) option" where
  "export_formats =
     map_of
       [(''application/vnd.google-apps.document'', (''application/pdf'', ''.pdf'')),
        (''application/vnd.google-apps.spreadsheet'',
           (''application/vnd.openxmlformats-officedocument.spreadsheetml.sheet'', ''.xlsx'')),
        (''application/vnd.google-apps.presentation'',
           (''application/vnd.openxmlformats-officedocument.presentationml.presentation'', ''.pptx''))]"

text \<open>
  The first \<^verbatim>\<open>if\<close> of \<^verbatim>\<open>download_drive_file\<close>: the export MIME type of the request
  (\<open>None\<close> for \<^verbatim>\<open>get_media\<close>) and the extension.
\<close>

definition export_choice :: "string option \<Rightarrow> string option \<times> string" where
  "export_choice mime_type =
     (case mime_type of
        None \<Rightarrow> (None, [])
      | Some m \<Rightarrow>
          if m \<noteq> [] \<and> startswith m ''application/vnd.google-apps'' then
            (case export_formats m of
               Some (export_mime_type, extension) \<Rightarrow> (Some export_mime_type, extension)
             | None \<Rightarrow> (Some ''application/pdf'', ''.pdf''))
          else (None, []))"

text \<open>
  \<^verbatim>\<open>except HttpError\<close> returns \<^verbatim>\<open>(None, None)\<close>; any other exception leaves the function.
\<close>

definition download_drive_file ::
  "drive_service \<Rightarrow> cloud \<Rightarrow> string \<Rightarrow> string option
     \<Rightarrow> (string + string option \<times> string option) \<times> cloud" where
  "download_drive_file drive s file_id mime_type =
     (case export_choice mime_type of
        (export_mime_type, extension) \<Rightarrow>
          (let s' = s\<lparr>media_calls := media_calls s @ [(file_id, export_mime_type)]\<rparr>
           in case media drive file_id export_mime_type of
                Returns file_content \<Rightarrow> (Inr (Some file_content, Some extension), s')
              | HttpError \<Rightarrow> (Inr (None, None), s')
              | Raises e \<Rightarrow> (Inl e, s')))"

definition upload_to_gcs ::
  "gcs_client \<Rightarrow> cloud \<Rightarrow> string \<Rightarrow> string \<Rightarrow> string \<Rightarrow> bool \<times> cloud" where
  "upload_to_gcs gcs s bucket_name blob_name file_content =
     (let s' = s\<lparr>gcs_writes := gcs_writes s @ [(bucket_name, blob_name)]\<rparr>
      in if blob_raises gcs bucket_name blob_name then (False, s')
         else (True, s'\<lparr>blobs := (blobs s')((bucket_name, blob_name) \<mapsto> file_content)\<rparr>))"

definition create_gcs_folder_structure ::
  "gcs_client \<Rightarrow> cloud \<Rightarrow> string \<Rightarrow> string \<Rightarrow> bool \<times> cloud" where
  "create_gcs_folder_structure gcs s bucket_name gcs_path =
     (if gcs_path = [] \<or> gcs_path = ''/'' then (True, s)
      else if blob_raises gcs bucket_name (gcs_path @ ''/'') then (False, s)
      else if blobs s (bucket_name, gcs_path @ ''/'') = None then
        (True, s\<lparr>gcs_writes := gcs_writes s @ [(bucket_name, gcs_path @ ''/'')],
                 blobs := (blobs s)((bucket_name, gcs_path @ ''/'') \<mapsto> [])\<rparr>)
      else (True, s))"

subsection \<open>The filter predicate\<close>

text \<open>\<^verbatim>\<open>for part in path_parts: if part in ["2025"]: return True\<close>, then \<^verbatim>\<open>return True\<close>.\<close>

fun validate_parts :: "string list \<Rightarrow> bool" where
  "validate_parts [] = True"
| "validate_parts (part # path_parts) =
     (if List.member [''2025''] part then True else validate_parts path_parts)"

definition validate_file_path :: "string option \<Rightarrow> bool" where
  "validate_file_path file_path =
     (case file_path of
        None \<Rightarrow> True
      | Some p \<Rightarrow> if p = [] then True else validate_parts (str_split CHR ''/'' p))"

subsection \<open>The webhook handler\<close>

text \<open>The JSON body of the request: the two keys the handler reads an identifier from.\<close>

record request =
  file_id_field :: "string option"
  id_field :: "string option"

text \<open>The JSON bodies the handler answers with, each with its fields in the source's order.\<close>

datatype body =
  ErrorBody string
  | FolderSkipped string string
  | FileSkipped string string "string option"
  | Replicated string string string "string option" string string "string option"

type_synonym response = "body \<times> nat"

text \<open>\<^verbatim>\<open>a or b\<close> on values that are a string or \<^verbatim>\<open>None\<close>.\<close>

definition py_or :: "string option \<Rightarrow> string option \<Rightarrow> string option" where
  "py_or a b = (if a \<noteq> None \<and> a \<noteq> Some [] then a else b)"

text \<open>\<^verbatim>\<open># Build GCS paths\<close>: \<^verbatim>\<open>gcs_folder_path\<close>.\<close>

definition gcs_folder_path :: "config \<Rightarrow> string option \<Rightarrow> string" where
  "gcs_folder_path cfg relative_folder_path =
     (case relative_folder_path of
        None \<Rightarrow> GCS_BASE_PATH cfg
      | Some r \<Rightarrow> if r \<noteq> [] then GCS_BASE_PATH cfg @ ''/'' @ r else GCS_BASE_PATH cfg)"

text \<open>\<^verbatim>\<open># Determine final filename for GCS\<close>: \<^verbatim>\<open>gcs_filename\<close>.\<close>

definition gcs_filename :: "string \<Rightarrow> string option \<Rightarrow> string" where
  "gcs_filename file_name extension =
     (case extension of
        None \<Rightarrow> file_name
      | Some e \<Rightarrow> if e \<noteq> [] \<and> \<not> endswith file_name e then file_name @ e else file_name)"

text \<open>\<^verbatim>\<open># Calculate the full GCS path\<close>: \<^verbatim>\<open>gcs_object_name\<close>.\<close>

definition gcs_object_name :: "config \<Rightarrow> string option \<Rightarrow> string \<Rightarrow> string" where
  "gcs_object_name cfg relative_folder_path filename =
     gcs_folder_path cfg relative_folder_path @ ''/'' @ filename"

text \<open>
  The body of \<^verbatim>\<open>handle_webhook\<close> is one \<^verbatim>\<open>try\<close> block: an exception that reaches it
  (from the first metadata fetch or from the download) is answered with
  \<^verbatim>\<open>{'error': str(e)}, 500\<close>.
\<close>

definition handle_webhook :: "config \<Rightarrow> environment \<Rightarrow> cloud \<Rightarrow> request \<Rightarrow> response \<times> cloud" where
  "handle_webhook cfg env s data =
     (case py_or (file_id_field data) (id_field data) of
        None \<Rightarrow> ((ErrorBody ''File ID not provided'', 400), s)
      | Some file_id \<Rightarrow>
          if file_id = [] then ((ErrorBody ''File ID not provided'', 400), s)
          else
            (case (authenticate_drive env, authenticate_gcs env) of
               (Some drive, Some gcs) \<Rightarrow>
                 (case get_file_metadata drive s file_id of
                    (Inl e, s1) \<Rightarrow> ((ErrorBody e, 500), s1)
                  | (Inr None, s1) \<Rightarrow>
                      ((ErrorBody ''Could not retrieve file metadata'', 404), s1)
                  | (Inr (Some metadata), s1) \<Rightarrow>
                      if mimeType metadata = Some ''application/vnd.google-apps.folder'' then
                        ((FolderSkipped ''Skipped folder - only processing files'' file_id, 200), s1)
                      else
                        (case get_relative_path_from_shared_folder drive s1 file_id
                                (SHARED_FOLDER_ID cfg) of
                           ((None, relative_folder_path), s2) \<Rightarrow>
                             ((ErrorBody ''Could not determine file path'', 500), s2)
                         | ((Some file_name, relative_folder_path), s2) \<Rightarrow>
                             if file_name = [] then
                               ((ErrorBody ''Could not determine file path'', 500), s2)
                             else if \<not> validate_file_path relative_folder_path then
                               ((FileSkipped ''Skipped file - not in target folder'' file_name
                                   relative_folder_path, 200), s2)
                             else
                               (let s3 =
                                      (if relative_folder_path \<noteq> None
                                          \<and> relative_folder_path \<noteq> Some []
                                       then snd (create_gcs_folder_structure gcs s2
                                                   (BUCKET_NAME cfg)
                                                   (gcs_folder_path cfg relative_folder_path))
                                       else s2)
                                in case download_drive_file drive s3 file_id (mimeType metadata) of
                                     (Inl e, s4) \<Rightarrow> ((ErrorBody e, 500), s4)
                                   | (Inr (None, extension), s4) \<Rightarrow>
                                       ((ErrorBody ''Could not download file from Drive'', 500), s4)
                                   | (Inr (Some file_content, extension), s4) \<Rightarrow>
                                       (let object_name =
                                              gcs_object_name cfg relative_folder_path
                                                (gcs_filename file_name extension)
                                        in case upload_to_gcs gcs s4 (BUCKET_NAME cfg)
                                                  object_name file_content of
                                             (True, s5) \<Rightarrow>
                                               ((Replicated
                                                   (''Successfully replicated: '' @ file_name
                                                      @ '' to '' @ object_name)
                                                   file_name (name metadata) relative_folder_path
                                                   object_name file_id (mimeType metadata),
                                                 200), s5)
                                           | (False, s5) \<Rightarrow>
                                               ((ErrorBody (''Failed to replicate: '' @ file_name),
                                                 500), s5)))))
             | _ \<Rightarrow> ((ErrorBody ''Authentication failed'', 500), s)))"

subsection \<open>Vocabulary for the statements\<close>

text \<open>
  The definitions of this subsection are not code of the program: they describe the
  Drive tree a statement is about, and the shape of an object key.

  \<open>parent_chain drive ids\<close>: the fetch of every identifier of \<open>ids\<close> returns metadata, and
  each one but the first is the (non-empty) first parent of the one before it.
\<close>

fun parent_chain :: "drive_service \<Rightarrow> string list \<Rightarrow> bool" where
  "parent_chain drive [] = True"
| "parent_chain drive [i] = (case files_get drive i of Returns m \<Rightarrow> True | _ \<Rightarrow> False)"
| "parent_chain drive (i # j # ids) =
     (case files_get drive i of
        Returns m \<Rightarrow>
          (case parents m of [] \<Rightarrow> False | p # _ \<Rightarrow> p = j \<and> j \<noteq> [])
          \<and> parent_chain drive (j # ids)
      | _ \<Rightarrow> False)"

definition node_name :: "drive_service \<Rightarrow> string \<Rightarrow> string" where
  "node_name drive i = (case files_get drive i of Returns m \<Rightarrow> name m | _ \<Rightarrow> [])"

text \<open>
  \<open>walk_ends drive ids\<close>: nothing is read above the last identifier of \<open>ids\<close>. It has no
  parent, or its first parent is the empty identifier, or the fetch of its first parent
  raises \<^verbatim>\<open>HttpError\<close>, or it is the twentieth ancestor of the first.
\<close>

definition walk_ends :: "drive_service \<Rightarrow> string list \<Rightarrow> bool" where
  "walk_ends drive ids =
     (case files_get drive (last ids) of
        Returns m \<Rightarrow>
          (case parents m of
             [] \<Rightarrow> True
           | p # _ \<Rightarrow> p = [] \<or> files_get drive p = HttpError \<or> length ids = max_depth + 1)
      | _ \<Rightarrow> False)"

text \<open>
  \<open>walk_raises drive ids\<close>: the last identifier of \<open>ids\<close> is not yet the twentieth ancestor
  of the first, and the fetch of its first parent raises an exception other than
  \<^verbatim>\<open>HttpError\<close>.
\<close>

definition walk_raises :: "drive_service \<Rightarrow> string list \<Rightarrow> bool" where
  "walk_raises drive ids =
     (case files_get drive (last ids) of
        Returns m \<Rightarrow>
          (case parents m of
             [] \<Rightarrow> False
           | p # _ \<Rightarrow>
               p \<noteq> [] \<and> length ids \<le> max_depth
               \<and> (case files_get drive p of Raises e \<Rightarrow> True | _ \<Rightarrow> False))
      | _ \<Rightarrow> False)"

text \<open>\<open>raises a\<close>: the request raised an exception other than \<^verbatim>\<open>HttpError\<close>.\<close>

definition raises :: "'a answer \<Rightarrow> bool" where
  "raises a = (case a of Raises e \<Rightarrow> True | _ \<Rightarrow> False)"

text \<open>A name without the path separator.\<close>

definition slash_free :: "string \<Rightarrow> bool" where
  "slash_free n = (CHR ''/'' \<notin> set n)"

fun doubled_separator :: "string \<Rightarrow> bool" where
  "doubled_separator [] = False"
| "doubled_separator [x] = False"
| "doubled_separator (x # y # s) =
     (if x = CHR ''/'' \<and> y = CHR ''/'' then True else doubled_separator (y # s))"

definition leading_separator :: "string \<Rightarrow> bool" where
  "leading_separator s = (case s of [] \<Rightarrow> False | x # _ \<Rightarrow> x = CHR ''/'')"

definition trailing_separator :: "string \<Rightarrow> bool" where
  "trailing_separator s = (case rev s of [] \<Rightarrow> False | x # _ \<Rightarrow> x = CHR ''/'')"

text \<open>A component that brings no separator trouble of its own.\<close>

definition clean_component :: "string \<Rightarrow> bool" where
  "clean_component s =
     (s \<noteq> [] \<and> \<not> doubled_separator s \<and> \<not> leading_separator s \<and> \<not> trailing_separator s)"

subsection \<open>A Drive tree, a bucket and requests to run the program on\<close>

definition folder_type :: string where
  "folder_type = ''application/vnd.google-apps.folder''"

text \<open>
  \<^verbatim>\<open>My Drive/Shared/Finance/2025/Q3.gsheet\<close> below the shared root \<^verbatim>\<open>root\<close>; a folder named
  \<^verbatim>\<open>A/\<close> in the shared root with a file in it; a file \<^verbatim>\<open>h1\<close> in a folder whose parent
  cannot be read (\<^verbatim>\<open>HttpError\<close>); a file named like the shared root; two folders that are
  each other's parent; a file \<^verbatim>\<open>q1\<close> and a folder \<^verbatim>\<open>xs\<close> with a separator in their names;
  a file \<^verbatim>\<open>r1\<close> in a folder the fetch of whose parent \<^verbatim>\<open>slow\<close> times out; a file \<^verbatim>\<open>t1\<close>
  whose download breaks off.
\<close>

definition sample_files :: "(string \<times> metadata) list" where
  "sample_files =
     [(''f1'', \<lparr>name = ''Q3.gsheet'', parents = [''d2''],
                mimeType = Some ''application/vnd.google-apps.spreadsheet''\<rparr>),
      (''d2'', \<lparr>name = ''2025'', parents = [''d1''], mimeType = Some folder_type\<rparr>),
      (''d1'', \<lparr>name = ''Finance'', parents = [''root''], mimeType = Some folder_type\<rparr>),
      (''root'', \<lparr>name = ''Shared'', parents = [''top''], mimeType = Some folder_type\<rparr>),
      (''top'', \<lparr>name = ''My Drive'', parents = [], mimeType = Some folder_type\<rparr>),
      (''other'', \<lparr>name = ''Elsewhere'', parents = [], mimeType = Some folder_type\<rparr>),
      (''s1'', \<lparr>name = ''report'', parents = [''sd''], mimeType = Some ''text/plain''\<rparr>),
      (''sd'', \<lparr>name = ''A/'', parents = [''root''], mimeType = Some folder_type\<rparr>),
      (''h1'', \<lparr>name = ''orphan.txt'', parents = [''h2''], mimeType = Some ''text/plain''\<rparr>),
      (''h2'', \<lparr>name = ''Inbox'', parents = [''hidden''], mimeType = Some folder_type\<rparr>),
      (''g1'', \<lparr>name = ''Shared'', parents = [], mimeType = Some ''text/plain''\<rparr>),
      (''c1'', \<lparr>name = ''a'', parents = [''c2''], mimeType = Some folder_type\<rparr>),
      (''c2'', \<lparr>name = ''b'', parents = [''c1''], mimeType = Some folder_type\<rparr>),
      (''q1'', \<lparr>name = ''Q3/Q4.gsheet'', parents = [''d1''],
                mimeType = Some ''application/vnd.google-apps.spreadsheet''\<rparr>),
      (''x1'', \<lparr>name = ''f.txt'', parents = [''xs''], mimeType = Some ''text/plain''\<rparr>),
      (''xs'', \<lparr>name = ''x/Shared'', parents = [''top''], mimeType = Some folder_type\<rparr>),
      (''r1'', \<lparr>name = ''late.txt'', parents = [''r2''], mimeType = Some ''text/plain''\<rparr>),
      (''r2'', \<lparr>name = ''Outbox'', parents = [''slow''], mimeType = Some folder_type\<rparr>),
      (''t1'', \<lparr>name = ''big.bin'', parents = [''root''],
                mimeType = Some ''application/octet-stream''\<rparr>)]"

definition sample_drive :: drive_service where
  "sample_drive =
     \<lparr>files_get =
        (\<lambda>file_id.
           if file_id = ''slow'' then Raises ''timed out''
           else (case map_of sample_files file_id of
                   Some metadata \<Rightarrow> Returns metadata
                 | None \<Rightarrow> HttpError)),
      media =
        (\<lambda>file_id export_mime_type.
           if file_id = ''h1'' then HttpError
           else if file_id = ''t1'' then Raises ''connection reset''
           else Returns ''bytes'')\<rparr>"

definition sample_gcs :: gcs_client where
  "sample_gcs = \<lparr>blob_raises = (\<lambda>bucket_name blob_name. False)\<rparr>"

definition failing_gcs :: gcs_client where
  "failing_gcs = \<lparr>blob_raises = (\<lambda>bucket_name blob_name. True)\<rparr>"

definition sample_env :: environment where
  "sample_env = \<lparr>drive_auth = Some sample_drive, gcs_auth = Some sample_gcs\<rparr>"

definition sample_config :: config where
  "sample_config = \<lparr>BUCKET_NAME = ''bucket'', GCS_BASE_PATH = ''X'', SHARED_FOLDER_ID = ''root''\<rparr>"

definition fresh :: cloud where
  "fresh = \<lparr>metadata_calls = [], media_calls = [], gcs_writes = [], blobs = Map.empty\<rparr>"

definition webhook_for :: "string \<Rightarrow> request" where
  "webhook_for file_id = \<lparr>file_id_field = Some file_id, id_field = None\<rparr>"

section \<open>Properties\<close>

subsection \<open>Facts about the string operations and the sample tree\<close>

lemmas sample_defs =
  sample_drive_def sample_files_def sample_gcs_def failing_gcs_def sample_env_def
  sample_config_def fresh_def webhook_for_def folder_type_def

lemma str_split_not_Nil: "str_split c s \<noteq> []"
  by (induction s) (auto split: list.splits)

lemma str_split_slash_free: "c \<notin> set p \<Longrightarrow> str_split c p = [p]"
  by (induction p) auto

lemma str_split_append:
  "c \<notin> set p \<Longrightarrow> str_split c (p @ c # rest) = p # str_split c rest"
  by (induction p) auto

lemma str_split_join:
  "parts \<noteq> [] \<Longrightarrow> (\<And>p. p \<in> set parts \<Longrightarrow> c \<notin> set p)
     \<Longrightarrow> str_split c (str_join [c] parts) = parts"
proof (induction "[c]" parts rule: str_join.induct)
  case 1
  then show ?case by simp
next
  case (2 p)
  then show ?case by (simp add: str_split_slash_free)
next
  case (3 p q ps)
  then show ?case by (simp add: str_split_append)
qed

lemma list_index_first:
  "x \<notin> set pre \<Longrightarrow> list_index (pre @ x # rest) x = Some (length pre)"
  by (induction pre) auto

lemma list_index_None: "(list_index xs x = None) = (x \<notin> set xs)"
  by (induction xs) auto

lemma str_join_butlast_short:
  "(if Suc 0 < length ps then str_join sep (butlast ps) else []) = str_join sep (butlast ps)"
  by (cases ps) auto

lemma validate_parts_True: "validate_parts path_parts"
  by (induction path_parts) simp_all

subsection \<open>The filter predicate\<close>

text \<open>
  C7. \<open>validate_file_path\<close> accepts every path: \<^verbatim>\<open>None\<close>, the empty path, a path with a
  component \<^verbatim>\<open>2025\<close> and a path without one.
\<close>

theorem validate_file_path_accepts_all: "validate_file_path file_path = True"
  by (simp add: validate_file_path_def validate_parts_True split: option.split)

theorem validate_file_path_accepts_all_witness:
  "validate_file_path None \<and> validate_file_path (Some [])
     \<and> validate_file_path (Some ''2024/misc'') \<and> validate_file_path (Some ''Finance/2025'')"
  using validate_file_path_accepts_all [of None] validate_file_path_accepts_all [of "Some []"]
    validate_file_path_accepts_all [of "Some ''2024/misc''"]
    validate_file_path_accepts_all [of "Some ''Finance/2025''"]
  by simp

subsection \<open>The ancestor-chain walker\<close>

text \<open>One turn of the loop, by what the fetch of \<open>current_id\<close> does.\<close>

lemma walk_parents_stop:
  "current_id = [] \<or> max_depth \<le> depth
     \<Longrightarrow> walk_parents drive s current_id depth path_parts = (Inr path_parts, s)"
  by (subst walk_parents.simps) auto

lemma walk_parents_raise:
  "current_id \<noteq> [] \<Longrightarrow> depth < max_depth \<Longrightarrow> files_get drive current_id = Raises e
     \<Longrightarrow> walk_parents drive s current_id depth path_parts
         = (Inl e, s\<lparr>metadata_calls := metadata_calls s @ [current_id]\<rparr>)"
  by (subst walk_parents.simps) (simp add: get_file_metadata_def)

lemma walk_parents_http:
  "current_id \<noteq> [] \<Longrightarrow> depth < max_depth \<Longrightarrow> files_get drive current_id = HttpError
     \<Longrightarrow> walk_parents drive s current_id depth path_parts
         = (Inr path_parts, s\<lparr>metadata_calls := metadata_calls s @ [current_id]\<rparr>)"
  by (subst walk_parents.simps) (simp add: get_file_metadata_def)

lemma walk_parents_root:
  "current_id \<noteq> [] \<Longrightarrow> depth < max_depth \<Longrightarrow> files_get drive current_id = Returns m
     \<Longrightarrow> parents m = []
     \<Longrightarrow> walk_parents drive s current_id depth path_parts
         = (Inr (path_parts @ [name m]),
            s\<lparr>metadata_calls := metadata_calls s @ [current_id]\<rparr>)"
  by (subst walk_parents.simps) (simp add: get_file_metadata_def)

lemma walk_parents_step:
  "current_id \<noteq> [] \<Longrightarrow> depth < max_depth \<Longrightarrow> files_get drive current_id = Returns m
     \<Longrightarrow> parents m = p # ps
     \<Longrightarrow> walk_parents drive s current_id depth path_parts
         = walk_parents drive (s\<lparr>metadata_calls := metadata_calls s @ [current_id]\<rparr>) p
             (depth + 1) (path_parts @ [name m])"
  by (subst walk_parents.simps) (simp add: get_file_metadata_def)

lemma cloud_same_calls [simp]: "s\<lparr>metadata_calls := metadata_calls s\<rparr> = s"
  by simp

text \<open>
  The loop sends at most \<open>max_depth - depth\<close> requests, and it is left by an exception
  exactly when one of them raised one.
\<close>

lemma walk_parents_state:
  "\<exists>calls. snd (walk_parents drive s current_id depth path_parts)
             = s\<lparr>metadata_calls := metadata_calls s @ calls\<rparr>
           \<and> length calls \<le> max_depth - depth
           \<and> isl (fst (walk_parents drive s current_id depth path_parts))
               = (\<exists>i \<in> set calls. raises (files_get drive i))"
proof (induction "max_depth - depth" arbitrary: s current_id depth path_parts)
  case 0
  then have "walk_parents drive s current_id depth path_parts = (Inr path_parts, s)"
    by (simp add: walk_parents_stop)
  then have "snd (walk_parents drive s current_id depth path_parts)
        = s\<lparr>metadata_calls := metadata_calls s @ []\<rparr>
      \<and> length ([] :: string list) \<le> max_depth - depth
      \<and> isl (fst (walk_parents drive s current_id depth path_parts))
          = (\<exists>i \<in> set []. raises (files_get drive i))"
    by simp
  then show ?case by blast
next
  case (Suc n)
  then have depth: "depth < max_depth" by simp
  let ?s' = "s\<lparr>metadata_calls := metadata_calls s @ [current_id]\<rparr>"
  let ?w = "walk_parents drive s current_id depth path_parts"
  show ?case
  proof (cases "current_id = []")
    case True
    then have "?w = (Inr path_parts, s)"
      by (simp add: walk_parents_stop)
    then have "snd ?w = s\<lparr>metadata_calls := metadata_calls s @ []\<rparr>
        \<and> length ([] :: string list) \<le> max_depth - depth
        \<and> isl (fst ?w) = (\<exists>i \<in> set []. raises (files_get drive i))"
      by simp
    then show ?thesis by blast
  next
    case False
    have one: "length [current_id] \<le> max_depth - depth"
      using depth by simp
    show ?thesis
    proof (cases "files_get drive current_id")
      case (Raises e)
      with False depth have "?w = (Inl e, ?s')"
        by (simp add: walk_parents_raise)
      with Raises one have "snd ?w = s\<lparr>metadata_calls := metadata_calls s @ [current_id]\<rparr>
          \<and> length [current_id] \<le> max_depth - depth
          \<and> isl (fst ?w) = (\<exists>i \<in> set [current_id]. raises (files_get drive i))"
        by (simp add: raises_def)
      then show ?thesis by blast
    next
      case HttpError
      with False depth have "?w = (Inr path_parts, ?s')"
        by (simp add: walk_parents_http)
      with HttpError one have "snd ?w = s\<lparr>metadata_calls := metadata_calls s @ [current_id]\<rparr>
          \<and> length [current_id] \<le> max_depth - depth
          \<and> isl (fst ?w) = (\<exists>i \<in> set [current_id]. raises (files_get drive i))"
        by (simp add: raises_def)
      then show ?thesis by blast
    next
      case (Returns m)
      show ?thesis
      proof (cases "parents m")
        case Nil
        with False depth Returns have "?w = (Inr (path_parts @ [name m]), ?s')"
          by (simp add: walk_parents_root)
        with Returns one have "snd ?w = s\<lparr>metadata_calls := metadata_calls s @ [current_id]\<rparr>
            \<and> length [current_id] \<le> max_depth - depth
            \<and> isl (fst ?w) = (\<exists>i \<in> set [current_id]. raises (files_get drive i))"
          by (simp add: raises_def)
        then show ?thesis by blast
      next
        case (Cons p ps)
        let ?r = "walk_parents drive ?s' p (depth + 1) (path_parts @ [name m])"
        have n: "n = max_depth - (depth + 1)"
          using Suc.hyps(2) by simp
        from Suc.hyps(1) [OF n, of ?s' p "path_parts @ [name m]"]
        obtain calls where c: "snd ?r = ?s'\<lparr>metadata_calls := metadata_calls ?s' @ calls\<rparr>"
            "length calls \<le> max_depth - (depth + 1)"
            "isl (fst ?r) = (\<exists>i \<in> set calls. raises (files_get drive i))"
          by blast
        from False depth Returns Cons have w: "?w = ?r"
          by (simp add: walk_parents_step)
        have "snd ?w = s\<lparr>metadata_calls := metadata_calls s @ (current_id # calls)\<rparr>"
          using w c(1) by simp
        moreover have "length (current_id # calls) \<le> max_depth - depth"
          using c(2) depth by simp
        moreover have "isl (fst ?w) = (\<exists>i \<in> set (current_id # calls). raises (files_get drive i))"
          using w c(3) Returns by (simp add: raises_def)
        ultimately show ?thesis by blast
      qed
    qed
  qed
qed

text \<open>The same for the whole function.\<close>

lemma get_drive_path_state:
  "\<exists>calls. snd (get_drive_path drive s file_id)
             = s\<lparr>metadata_calls := metadata_calls s @ file_id # calls\<rparr>
           \<and> length calls \<le> max_depth
           \<and> (fst (get_drive_path drive s file_id) = None)
               = (files_get drive file_id = HttpError
                  \<or> (\<exists>i \<in> set (file_id # calls). raises (files_get drive i)))"
proof -
  let ?g = "get_drive_path drive s file_id"
  let ?s' = "s\<lparr>metadata_calls := metadata_calls s @ [file_id]\<rparr>"
  have leaf: ?thesis
    if "?g = (r, ?s')"
      "(r = None) = (files_get drive file_id = HttpError \<or> raises (files_get drive file_id))"
    for r
  proof -
    from that have "snd ?g = s\<lparr>metadata_calls := metadata_calls s @ file_id # []\<rparr>
        \<and> length ([] :: string list) \<le> max_depth
        \<and> (fst ?g = None)
            = (files_get drive file_id = HttpError
               \<or> (\<exists>i \<in> set (file_id # []). raises (files_get drive i)))"
      by simp
    then show ?thesis by (rule exI [of _ "[]"])
  qed
  show ?thesis
  proof (cases "files_get drive file_id")
    case (Raises e)
    then show ?thesis
      by (intro leaf [of None])
        (simp_all add: get_drive_path_def get_file_metadata_def raises_def)
  next
    case HttpError
    then show ?thesis
      by (intro leaf [of None])
        (simp_all add: get_drive_path_def get_file_metadata_def raises_def)
  next
    case (Returns m)
    show ?thesis
    proof (cases "parents m")
      case Nil
      with Returns show ?thesis
        by (intro leaf [of "Some (name m)"])
          (simp_all add: get_drive_path_def get_file_metadata_def raises_def)
    next
      case (Cons p ps)
      let ?r = "walk_parents drive ?s' p 0 [name m]"
      from walk_parents_state [of drive ?s' p 0 "[name m]"]
      obtain calls where c: "snd ?r = ?s'\<lparr>metadata_calls := metadata_calls ?s' @ calls\<rparr>"
          "length calls \<le> max_depth"
          "isl (fst ?r) = (\<exists>i \<in> set calls. raises (files_get drive i))"
        by auto
      have g: "?g = (case fst ?r of Inl e \<Rightarrow> None
                      | Inr path_parts \<Rightarrow> Some (str_join ''/'' (rev path_parts)), snd ?r)"
        using Returns Cons
        by (simp add: get_drive_path_def get_file_metadata_def case_prod_beta split: sum.splits)
      have a: "snd ?g = s\<lparr>metadata_calls := metadata_calls s @ file_id # calls\<rparr>"
        using g c(1) by simp
      have "(fst ?g = None) = isl (fst ?r)"
        using g by (simp split: sum.splits)
      then have b: "(fst ?g = None)
          = (files_get drive file_id = HttpError
             \<or> (\<exists>i \<in> set (file_id # calls). raises (files_get drive i)))"
        using c(3) Returns by (simp add: raises_def)
      have "snd ?g = s\<lparr>metadata_calls := metadata_calls s @ file_id # calls\<rparr>
          \<and> length calls \<le> max_depth
          \<and> (fst ?g = None)
              = (files_get drive file_id = HttpError
                 \<or> (\<exists>i \<in> set (file_id # calls). raises (files_get drive i)))"
        by (rule conjI [OF a conjI [OF c(2) b]])
      then show ?thesis by (rule exI [of _ calls])
    qed
  qed
qed

text \<open>The loop along a chain of readable folders, up to the node where the walk ends.\<close>

lemma parent_chain_Cons:
  "parent_chain drive (i # j # ids)
     = (\<exists>m ps. files_get drive i = Returns m \<and> parents m = j # ps \<and> j \<noteq> []
          \<and> parent_chain drive (j # ids))"
  by (auto split: answer.splits list.splits)

lemma walk_parents_last:
  assumes "c \<noteq> []" and "depth < max_depth"
    and "files_get drive c = Returns m"
    and "parents m = [] \<or> hd (parents m) = [] \<or> files_get drive (hd (parents m)) = HttpError
           \<or> depth + 1 = max_depth"
  shows "fst (walk_parents drive s c depth path_parts) = Inr (path_parts @ [name m])"
proof (cases "parents m")
  case Nil
  with assms(1-3) show ?thesis by (simp add: walk_parents_root)
next
  case (Cons p ps)
  let ?s' = "s\<lparr>metadata_calls := metadata_calls s @ [c]\<rparr>"
  have "fst (walk_parents drive ?s' p (depth + 1) (path_parts @ [name m]))
      = Inr (path_parts @ [name m])"
  proof (cases "p = [] \<or> max_depth \<le> depth + 1")
    case True
    then show ?thesis by (simp add: walk_parents_stop)
  next
    case False
    with assms(4) Cons have "files_get drive p = HttpError" by auto
    with False show ?thesis by (simp add: walk_parents_http)
  qed
  with assms(1-3) Cons show ?thesis by (simp add: walk_parents_step)
qed

lemma walk_parents_chain_ends:
  assumes "parent_chain drive (c # rest)" and "c \<noteq> []"
    and "depth + length rest < max_depth"
    and "files_get drive (last (c # rest)) = Returns m"
    and "parents m = [] \<or> hd (parents m) = [] \<or> files_get drive (hd (parents m)) = HttpError
           \<or> depth + length rest + 1 = max_depth"
  shows "fst (walk_parents drive s c depth path_parts)
           = Inr (path_parts @ map (node_name drive) (c # rest))"
  using assms
proof (induction rest arbitrary: c depth s path_parts)
  case Nil
  then show ?case by (simp add: walk_parents_last node_name_def)
next
  case (Cons j rest)
  from Cons.prems(1) [unfolded parent_chain_Cons]
  obtain m' ps where m': "files_get drive c = Returns m'"
      "parents m' = j # ps" "j \<noteq> []" "parent_chain drive (j # rest)"
    by blast
  let ?s' = "s\<lparr>metadata_calls := metadata_calls s @ [c]\<rparr>"
  have "fst (walk_parents drive ?s' j (depth + 1) (path_parts @ [name m']))
      = Inr ((path_parts @ [name m']) @ map (node_name drive) (j # rest))"
  proof (rule Cons.IH [OF m'(4) m'(3)])
    show "depth + 1 + length rest < max_depth" using Cons.prems(3) by simp
    show "files_get drive (last (j # rest)) = Returns m" using Cons.prems(4) by simp
    show "parents m = [] \<or> hd (parents m) = [] \<or> files_get drive (hd (parents m)) = HttpError
           \<or> depth + 1 + length rest + 1 = max_depth"
      using Cons.prems(5) by simp
  qed
  moreover have "walk_parents drive s c depth path_parts
      = walk_parents drive ?s' j (depth + 1) (path_parts @ [name m'])"
    using m' Cons.prems(2,3) by (simp add: walk_parents_step)
  ultimately show ?case using m'(1) by (simp add: node_name_def)
qed

lemma walk_parents_chain_raises:
  assumes "parent_chain drive (c # rest)" and "c \<noteq> []"
    and "depth + length rest + 1 < max_depth"
    and "files_get drive (last (c # rest)) = Returns m"
    and "parents m = p # ps" and "p \<noteq> []" and "raises (files_get drive p)"
  shows "isl (fst (walk_parents drive s c depth path_parts))"
  using assms
proof (induction rest arbitrary: c depth s path_parts)
  case Nil
  let ?s' = "s\<lparr>metadata_calls := metadata_calls s @ [c]\<rparr>"
  from Nil.prems(7) obtain e where e: "files_get drive p = Raises e"
    by (auto simp: raises_def split: answer.splits)
  have "walk_parents drive s c depth path_parts
      = walk_parents drive ?s' p (depth + 1) (path_parts @ [name m])"
    using Nil.prems by (simp add: walk_parents_step)
  moreover have "isl (fst (walk_parents drive ?s' p (depth + 1) (path_parts @ [name m])))"
    using Nil.prems(3,6) e by (simp add: walk_parents_raise)
  ultimately show ?case by simp
next
  case (Cons j rest)
  from Cons.prems(1) [unfolded parent_chain_Cons]
  obtain m' ps' where m': "files_get drive c = Returns m'"
      "parents m' = j # ps'" "j \<noteq> []" "parent_chain drive (j # rest)"
    by blast
  let ?s' = "s\<lparr>metadata_calls := metadata_calls s @ [c]\<rparr>"
  have "isl (fst (walk_parents drive ?s' j (depth + 1) (path_parts @ [name m'])))"
  proof (rule Cons.IH [OF m'(4) m'(3) _ _ Cons.prems(5,6,7)])
    show "depth + 1 + length rest + 1 < max_depth" using Cons.prems(3) by simp
    show "files_get drive (last (j # rest)) = Returns m" using Cons.prems(4) by simp
  qed
  moreover have "walk_parents drive s c depth path_parts
      = walk_parents drive ?s' j (depth + 1) (path_parts @ [name m'])"
    using m' Cons.prems(2,3) by (simp add: walk_parents_step)
  ultimately show ?case by simp
qed

text \<open>What \<open>get_drive_path\<close> makes of the two.\<close>

lemma get_drive_path_Returns:
  "files_get drive file_id = Returns m \<Longrightarrow>
   get_drive_path drive s file_id =
     (case parents m of
        [] \<Rightarrow> (Some (name m), s\<lparr>metadata_calls := metadata_calls s @ [file_id]\<rparr>)
      | p # _ \<Rightarrow>
          (case walk_parents drive (s\<lparr>metadata_calls := metadata_calls s @ [file_id]\<rparr>) p 0
                  [name m] of
             (Inl e, s'') \<Rightarrow> (None, s'')
           | (Inr path_parts, s'') \<Rightarrow> (Some (str_join ''/'' (rev path_parts)), s'')))"
  by (simp add: get_drive_path_def get_file_metadata_def)

lemma walk_ends_cases:
  "walk_ends drive ids =
     (\<exists>m. files_get drive (last ids) = Returns m
        \<and> (parents m = [] \<or> hd (parents m) = [] \<or> files_get drive (hd (parents m)) = HttpError
             \<or> length ids = max_depth + 1))"
  by (auto simp: walk_ends_def split: answer.splits list.splits)

lemma walk_raises_cases:
  "walk_raises drive ids =
     (\<exists>m p ps. files_get drive (last ids) = Returns m \<and> parents m = p # ps \<and> p \<noteq> []
        \<and> length ids \<le> max_depth \<and> raises (files_get drive p))"
proof (cases "files_get drive (last ids)")
  case (Returns m)
  show ?thesis
  proof (cases "parents m")
    case Nil
    with Returns show ?thesis by (simp add: walk_raises_def)
  next
    case (Cons p ps)
    with Returns show ?thesis
      by (cases "files_get drive p") (simp_all add: walk_raises_def raises_def)
  qed
qed (simp_all add: walk_raises_def)

lemma get_drive_path_chain_ends:
  assumes "parent_chain drive (file_id # ancestors)"
    and "walk_ends drive (file_id # ancestors)"
    and "length ancestors \<le> max_depth"
  shows "fst (get_drive_path drive s file_id)
           = Some (str_join ''/'' (rev (map (node_name drive) (file_id # ancestors))))"
proof -
  let ?s' = "s\<lparr>metadata_calls := metadata_calls s @ [file_id]\<rparr>"
  from assms(2) [unfolded walk_ends_cases]
  obtain m where m: "files_get drive (last (file_id # ancestors)) = Returns m"
      "parents m = [] \<or> hd (parents m) = [] \<or> files_get drive (hd (parents m)) = HttpError
         \<or> length (file_id # ancestors) = max_depth + 1"
    by blast
  show ?thesis
  proof (cases ancestors)
    case Nil
    with m have f: "files_get drive file_id = Returns m"
      and e: "parents m = [] \<or> hd (parents m) = [] \<or> files_get drive (hd (parents m)) = HttpError"
      by (simp_all add: max_depth_def)
    show ?thesis
    proof (cases "parents m")
      case Nil
      with f \<open>ancestors = []\<close> show ?thesis
        by (simp add: get_drive_path_Returns node_name_def)
    next
      case (Cons p ps)
      have "walk_parents drive ?s' p 0 [name m]
          = (Inr [name m], if p = [] then ?s'
               else ?s'\<lparr>metadata_calls := metadata_calls ?s' @ [p]\<rparr>)"
        using e Cons by (auto simp: walk_parents_stop walk_parents_http max_depth_def)
      with f Cons \<open>ancestors = []\<close> show ?thesis
        by (simp add: get_drive_path_Returns node_name_def)
    qed
  next
    case (Cons j rest)
    from assms(1) [unfolded Cons parent_chain_Cons]
    obtain m' ps where m': "files_get drive file_id = Returns m'"
        "parents m' = j # ps" "j \<noteq> []" "parent_chain drive (j # rest)"
      by blast
    have "fst (walk_parents drive ?s' j 0 [name m'])
        = Inr ([name m'] @ map (node_name drive) (j # rest))"
    proof (rule walk_parents_chain_ends [OF m'(4) m'(3)])
      show "0 + length rest < max_depth" using assms(3) Cons by simp
      show "files_get drive (last (j # rest)) = Returns m" using m(1) Cons by simp
      show "parents m = [] \<or> hd (parents m) = [] \<or> files_get drive (hd (parents m)) = HttpError
           \<or> 0 + length rest + 1 = max_depth"
        using m(2) Cons by simp
    qed
    with m' Cons show ?thesis
      by (simp add: get_drive_path_Returns node_name_def case_prod_beta)
  qed
qed

lemma get_drive_path_chain_raises:
  assumes "parent_chain drive (file_id # ancestors)"
    and "walk_raises drive (file_id # ancestors)"
  shows "fst (get_drive_path drive s file_id) = None"
proof -
  let ?s' = "s\<lparr>metadata_calls := metadata_calls s @ [file_id]\<rparr>"
  from assms(2) [unfolded walk_raises_cases]
  obtain m p ps where m: "files_get drive (last (file_id # ancestors)) = Returns m"
      "parents m = p # ps" "p \<noteq> []" "length (file_id # ancestors) \<le> max_depth"
      "raises (files_get drive p)"
    by blast
  from m(5) obtain e where e: "files_get drive p = Raises e"
    by (auto simp: raises_def split: answer.splits)
  show ?thesis
  proof (cases ancestors)
    case Nil
    with m have f: "files_get drive file_id = Returns m" by simp
    have "walk_parents drive ?s' p 0 [name m]
        = (Inl e, ?s'\<lparr>metadata_calls := metadata_calls ?s' @ [p]\<rparr>)"
      using m(3) e by (simp add: walk_parents_raise max_depth_def)
    with f m(2) show ?thesis
      by (simp add: get_drive_path_Returns)
  next
    case (Cons j rest)
    from assms(1) [unfolded Cons parent_chain_Cons]
    obtain m' ps' where m': "files_get drive file_id = Returns m'"
        "parents m' = j # ps'" "j \<noteq> []" "parent_chain drive (j # rest)"
      by blast
    have "isl (fst (walk_parents drive ?s' j 0 [name m']))"
    proof (rule walk_parents_chain_raises [OF m'(4) m'(3) _ _ m(2,3,5)])
      show "0 + length rest + 1 < max_depth" using m(4) Cons by simp
      show "files_get drive (last (j # rest)) = Returns m" using m(1) Cons by simp
    qed
    then obtain e' where "fst (walk_parents drive ?s' j 0 [name m']) = Inl e'"
      by (cases "fst (walk_parents drive ?s' j 0 [name m'])") simp_all
    with m' show ?thesis
      by (simp add: get_drive_path_Returns case_prod_beta)
  qed
qed

text \<open>
  C5. Whatever the parent links are, a cycle of any length among them, \<open>get_drive_path\<close>
  returns (it is a total function: the loop runs on a measure that decreases, and every
  exception of a fetch is caught), and it fetches the starting node and then at most 20
  ancestors. It returns no path exactly when the first fetch raises \<^verbatim>\<open>HttpError\<close> or one
  of the fetches it made raises another exception; otherwise it returns the path collected
  so far. On the two folders that are each other's parent it stops after 20 ancestors with
  21 names.
\<close>

theorem get_drive_path_bounded:
  "\<exists>calls. snd (get_drive_path drive s file_id)
             = s\<lparr>metadata_calls := metadata_calls s @ file_id # calls\<rparr>
           \<and> length calls \<le> 20
           \<and> (fst (get_drive_path drive s file_id) = None)
               = (files_get drive file_id = HttpError
                  \<or> (\<exists>i \<in> set (file_id # calls). raises (files_get drive i)))"
  using get_drive_path_state [of drive s file_id] by (simp add: max_depth_def)

lemma sample_path_c1:
  "get_drive_path sample_drive fresh ''c1'' =
     (Some ''a/b/a/b/a/b/a/b/a/b/a/b/a/b/a/b/a/b/a/b/a'',
      fresh\<lparr>metadata_calls :=
        [''c1'', ''c2'', ''c1'', ''c2'', ''c1'', ''c2'', ''c1'', ''c2'', ''c1'', ''c2'', ''c1'',
         ''c2'', ''c1'', ''c2'', ''c1'', ''c2'', ''c1'', ''c2'', ''c1'', ''c2'', ''c1'']\<rparr>)"
  by (simp add: get_drive_path_def walk_parents.simps get_file_metadata_def max_depth_def
      sample_defs)

theorem get_drive_path_bounded_witness:
  "(\<exists>calls. snd (get_drive_path sample_drive fresh ''c1'')
              = fresh\<lparr>metadata_calls := metadata_calls fresh @ ''c1'' # calls\<rparr>
            \<and> length calls \<le> 20
            \<and> (fst (get_drive_path sample_drive fresh ''c1'') = None)
                = (files_get sample_drive ''c1'' = HttpError
                   \<or> (\<exists>i \<in> set (''c1'' # calls). raises (files_get sample_drive i))))
   \<and> fst (get_drive_path sample_drive fresh ''c1'')
       = Some ''a/b/a/b/a/b/a/b/a/b/a/b/a/b/a/b/a/b/a/b/a''
   \<and> length (metadata_calls (snd (get_drive_path sample_drive fresh ''c1''))) = 21"
  using get_drive_path_bounded [of sample_drive fresh "''c1''"] sample_path_c1
  by simp

text \<open>
  C4. What the walker returns. It returns \<^verbatim>\<open>None\<close> when the fetch of the starting
  identifier fails, with \<^verbatim>\<open>HttpError\<close> or with another exception. Otherwise it follows the
  first-parent links. The walk ends at a node without a parent, at an empty parent
  identifier, at a parent whose fetch raises \<^verbatim>\<open>HttpError\<close>, or after 20 ancestors: then the
  names read so far are returned, outermost first and joined by \<^verbatim>\<open>/\<close>, and the result is
  not \<^verbatim>\<open>None\<close>. When the fetch of an ancestor raises another exception, the result is
  \<^verbatim>\<open>None\<close>.
\<close>

theorem get_drive_path_result:
  "(files_get drive file_id = HttpError \<or> raises (files_get drive file_id) \<longrightarrow>
      fst (get_drive_path drive s file_id) = None)
   \<and> (parent_chain drive (file_id # ancestors) \<and> walk_ends drive (file_id # ancestors)
        \<and> length ancestors \<le> max_depth \<longrightarrow>
        fst (get_drive_path drive s file_id)
          = Some (str_join ''/'' (rev (map (node_name drive) (file_id # ancestors)))))
   \<and> (parent_chain drive (file_id # ancestors) \<and> walk_raises drive (file_id # ancestors) \<longrightarrow>
        fst (get_drive_path drive s file_id) = None)"
proof (intro conjI impI)
  assume "files_get drive file_id = HttpError \<or> raises (files_get drive file_id)"
  then show "fst (get_drive_path drive s file_id) = None"
    by (auto simp: get_drive_path_def get_file_metadata_def raises_def split: answer.splits)
next
  assume "parent_chain drive (file_id # ancestors) \<and> walk_ends drive (file_id # ancestors)
        \<and> length ancestors \<le> max_depth"
  then show "fst (get_drive_path drive s file_id)
          = Some (str_join ''/'' (rev (map (node_name drive) (file_id # ancestors))))"
    using get_drive_path_chain_ends [of drive file_id ancestors s] by blast
next
  assume "parent_chain drive (file_id # ancestors) \<and> walk_raises drive (file_id # ancestors)"
  then show "fst (get_drive_path drive s file_id) = None"
    using get_drive_path_chain_raises [of drive file_id ancestors s] by blast
qed

lemma sample_path_h1:
  "get_drive_path sample_drive fresh ''h1'' =
     (Some ''Inbox/orphan.txt'', fresh\<lparr>metadata_calls := [''h1'', ''h2'', ''hidden'']\<rparr>)"
  by (simp add: get_drive_path_def walk_parents.simps get_file_metadata_def max_depth_def
      sample_defs)

theorem get_drive_path_result_witness:
  "fst (get_drive_path sample_drive fresh ''hidden'') = None
   \<and> fst (get_drive_path sample_drive fresh ''slow'') = None
   \<and> fst (get_drive_path sample_drive fresh ''h1'') = Some ''Inbox/orphan.txt''
   \<and> fst (get_drive_path sample_drive fresh ''f1'') = Some ''My Drive/Shared/Finance/2025/Q3.gsheet''
   \<and> fst (get_drive_path sample_drive fresh ''r1'') = None"
proof -
  have none: "files_get sample_drive ''hidden'' = HttpError
      \<or> raises (files_get sample_drive ''hidden'')"
    by (simp add: sample_defs)
  have slow: "files_get sample_drive ''slow'' = HttpError
      \<or> raises (files_get sample_drive ''slow'')"
    by (simp add: sample_defs raises_def)
  have h: "parent_chain sample_drive (''h1'' # [''h2'']) \<and> walk_ends sample_drive (''h1'' # [''h2''])
      \<and> length [''h2''] \<le> max_depth"
    by (simp add: walk_ends_def max_depth_def sample_defs)
  have f: "parent_chain sample_drive (''f1'' # [''d2'', ''d1'', ''root'', ''top''])
      \<and> walk_ends sample_drive (''f1'' # [''d2'', ''d1'', ''root'', ''top''])
      \<and> length [''d2'', ''d1'', ''root'', ''top''] \<le> max_depth"
    by (simp add: walk_ends_def max_depth_def sample_defs)
  have r: "parent_chain sample_drive (''r1'' # [''r2''])
      \<and> walk_raises sample_drive (''r1'' # [''r2''])"
    by (simp add: walk_raises_def max_depth_def sample_defs)
  from get_drive_path_result [of sample_drive "''hidden''" fresh "[]"] none
  have 1: "fst (get_drive_path sample_drive fresh ''hidden'') = None"
    by blast
  from get_drive_path_result [of sample_drive "''slow''" fresh "[]"] slow
  have 2: "fst (get_drive_path sample_drive fresh ''slow'') = None"
    by blast
  from get_drive_path_result [of sample_drive "''h1''" fresh "[''h2'']"] h
  have 3: "fst (get_drive_path sample_drive fresh ''h1'')
      = Some (str_join ''/'' (rev (map (node_name sample_drive) (''h1'' # [''h2'']))))"
    by blast
  from get_drive_path_result [of sample_drive "''f1''" fresh "[''d2'', ''d1'', ''root'', ''top'']"] f
  have 4: "fst (get_drive_path sample_drive fresh ''f1'')
      = Some (str_join ''/'' (rev (map (node_name sample_drive)
          (''f1'' # [''d2'', ''d1'', ''root'', ''top'']))))"
    by blast
  from get_drive_path_result [of sample_drive "''r1''" fresh "[''r2'']"] r
  have 5: "fst (get_drive_path sample_drive fresh ''r1'') = None"
    by blast
  from 1 2 3 4 5 show ?thesis
    by (simp add: node_name_def sample_defs)
qed

text \<open>
  A file two levels below a folder whose metadata cannot be read: the third fetch fails
  with \<^verbatim>\<open>HttpError\<close> and the walker still returns a path.
\<close>

theorem get_drive_path_ancestor_failure:
  "files_get sample_drive ''h1'' \<noteq> HttpError \<and> files_get sample_drive ''h2'' \<noteq> HttpError
   \<and> files_get sample_drive ''hidden'' = HttpError
   \<and> metadata_calls (snd (get_drive_path sample_drive fresh ''h1'')) = [''h1'', ''h2'', ''hidden'']
   \<and> fst (get_drive_path sample_drive fresh ''h1'') = Some ''Inbox/orphan.txt''
   \<and> fst (get_drive_path sample_drive fresh ''h1'') \<noteq> None"
  using sample_path_h1 by (simp add: sample_defs)

subsection \<open>The relativizer\<close>

text \<open>The relativizer on the components of the path that \<open>get_drive_path\<close> returned.\<close>

lemma get_relative_path_found:
  assumes "fst (get_drive_path drive s file_id) = Some full_path"
    and "full_path \<noteq> []"
    and "files_get drive shared_folder_id = Returns shared"
    and "str_split CHR ''/'' full_path = outer @ name shared # rest"
    and "name shared \<notin> set outer"
  shows "fst (get_relative_path_from_shared_folder drive s file_id shared_folder_id)
           = (if rest = [] then (None, Some [])
              else (Some (last rest), Some (str_join ''/'' (butlast rest))))"
proof -
  obtain s1 where g: "get_drive_path drive s file_id = (Some full_path, s1)"
    using assms(1) by (cases "get_drive_path drive s file_id") simp
  have idx: "list_index (str_split CHR ''/'' full_path) (name shared) = Some (length outer)"
    using assms(4,5) by (simp add: list_index_first)
  have rel: "drop (length outer + 1) (str_split CHR ''/'' full_path) = rest"
    using assms(4) by simp
  show ?thesis
    using g assms(2,3) idx rel
    by (simp add: get_relative_path_from_shared_folder_def get_file_metadata_def
        str_join_butlast_short Let_def)
qed

lemma get_relative_path_not_found:
  assumes "fst (get_drive_path drive s file_id) = Some full_path"
    and "full_path \<noteq> []"
    and "files_get drive shared_folder_id = Returns shared"
    and "name shared \<notin> set (str_split CHR ''/'' full_path)"
  shows "fst (get_relative_path_from_shared_folder drive s file_id shared_folder_id)
           = (Some (last (str_split CHR ''/'' full_path)),
              Some (str_join ''/'' (butlast (str_split CHR ''/'' full_path))))"
proof -
  obtain s1 where g: "get_drive_path drive s file_id = (Some full_path, s1)"
    using assms(1) by (cases "get_drive_path drive s file_id") simp
  have idx: "list_index (str_split CHR ''/'' full_path) (name shared) = None"
    using assms(4) by (simp add: list_index_None)
  show ?thesis
    using g assms(2,3) idx
    by (simp add: get_relative_path_from_shared_folder_def get_file_metadata_def
        str_join_butlast_short Let_def)
qed

text \<open>Names without a separator come back from the split of the joined path.\<close>

lemma split_joined_names:
  assumes "\<forall>n \<in> set names. slash_free n" and "names \<noteq> []"
  shows "str_split CHR ''/'' (str_join ''/'' names) = names"
  using assms by (intro str_split_join) (auto simp: slash_free_def)

text \<open>
  C1. Take the chain of names that the walker reads for a file: the file's own name, then
  the names of its ancestors, up to the node where the walk ends. Let no name of the chain
  contain the separator \<^verbatim>\<open>/\<close>, and let the name of the shared root occur in the chain, from
  the top first after \<open>outer\<close>, with the folder names \<open>folders\<close> and then the file's name
  behind it. Then \<open>get_relative_path_from_shared_folder\<close> returns the file's name and the
  names of \<open>folders\<close>, top-down and joined by \<^verbatim>\<open>/\<close>.
\<close>

theorem relative_path_below_shared_root:
  assumes "parent_chain drive (file_id # ancestors)"
    and "walk_ends drive (file_id # ancestors)"
    and "length ancestors \<le> max_depth"
    and "files_get drive shared_folder_id = Returns shared"
    and "rev (map (node_name drive) (file_id # ancestors))
           = outer @ name shared # folders @ [file_name]"
    and "name shared \<notin> set outer"
    and "\<forall>n \<in> set (map (node_name drive) (file_id # ancestors)). slash_free n"
  shows "fst (get_relative_path_from_shared_folder drive s file_id shared_folder_id)
           = (Some file_name, Some (str_join ''/'' folders))"
proof -
  let ?names = "rev (map (node_name drive) (file_id # ancestors))"
  have path: "fst (get_drive_path drive s file_id) = Some (str_join ''/'' ?names)"
    using assms(1-3) by (rule get_drive_path_chain_ends)
  have "\<forall>n \<in> set ?names. slash_free n"
    using assms(7) by simp
  then have "str_split CHR ''/'' (str_join ''/'' ?names) = ?names"
    by (rule split_joined_names) simp
  then have parts: "str_split CHR ''/'' (str_join ''/'' ?names)
      = outer @ name shared # (folders @ [file_name])"
    using assms(5) by simp
  have ne: "str_join ''/'' ?names \<noteq> []"
  proof
    assume "str_join ''/'' ?names = []"
    with parts have "[[]] = outer @ name shared # (folders @ [file_name])" by simp
    then show False by (cases outer) simp_all
  qed
  from get_relative_path_found [OF path ne assms(4) parts assms(6)]
  show ?thesis by simp
qed

theorem relative_path_below_shared_root_witness:
  "fst (get_relative_path_from_shared_folder sample_drive fresh ''f1'' ''root'')
     = (Some ''Q3.gsheet'', Some ''Finance/2025'')"
proof -
  let ?shared = "\<lparr>name = ''Shared'', parents = [''top''], mimeType = Some folder_type\<rparr>"
  have chain: "parent_chain sample_drive (''f1'' # [''d2'', ''d1'', ''root'', ''top''])"
    by (simp add: sample_defs)
  have ends: "walk_ends sample_drive (''f1'' # [''d2'', ''d1'', ''root'', ''top''])"
    by (simp add: walk_ends_def sample_defs)
  have len: "length [''d2'', ''d1'', ''root'', ''top''] \<le> max_depth"
    by (simp add: max_depth_def)
  have root: "files_get sample_drive ''root'' = Returns ?shared"
    by (simp add: sample_defs)
  have names: "rev (map (node_name sample_drive) (''f1'' # [''d2'', ''d1'', ''root'', ''top'']))
      = [''My Drive''] @ name ?shared # [''Finance'', ''2025''] @ [''Q3.gsheet'']"
    by (simp add: node_name_def sample_defs)
  have first: "name ?shared \<notin> set [''My Drive'']"
    by simp
  have free: "\<forall>n \<in> set (map (node_name sample_drive)
      (''f1'' # [''d2'', ''d1'', ''root'', ''top''])). slash_free n"
    by (simp add: node_name_def slash_free_def sample_defs)
  from relative_path_below_shared_root [OF chain ends len root names first free, of fresh]
  show ?thesis by simp
qed

text \<open>
  A file named \<^verbatim>\<open>Q3/Q4.gsheet\<close> in the folder \<^verbatim>\<open>Finance\<close> of the shared root: one folder
  name lies between the root and the file, and the relativizer returns two, with the first
  half of the file's name as the second.
\<close>

theorem relative_path_separator_in_name:
  "parent_chain sample_drive [''q1'', ''d1'', ''root'', ''top'']
   \<and> walk_ends sample_drive [''q1'', ''d1'', ''root'', ''top'']
   \<and> rev (map (node_name sample_drive) [''q1'', ''d1'', ''root'', ''top''])
       = [''My Drive''] @ ''Shared'' # [''Finance''] @ [''Q3/Q4.gsheet'']
   \<and> node_name sample_drive ''root'' = ''Shared''
   \<and> fst (get_relative_path_from_shared_folder sample_drive fresh ''q1'' ''root'')
       = (Some ''Q4.gsheet'', Some ''Finance/Q3'')
   \<and> fst (get_relative_path_from_shared_folder sample_drive fresh ''q1'' ''root'')
       \<noteq> (Some ''Q3/Q4.gsheet'', Some (str_join ''/'' [''Finance'']))"
proof -
  have "get_drive_path sample_drive fresh ''q1'' =
     (Some ''My Drive/Shared/Finance/Q3/Q4.gsheet'',
      fresh\<lparr>metadata_calls := [''q1'', ''d1'', ''root'', ''top'']\<rparr>)"
    by (simp add: get_drive_path_def walk_parents.simps get_file_metadata_def max_depth_def
        sample_defs)
  then have "fst (get_relative_path_from_shared_folder sample_drive fresh ''q1'' ''root'')
       = (Some ''Q4.gsheet'', Some ''Finance/Q3'')"
    by (simp add: get_relative_path_from_shared_folder_def get_file_metadata_def sample_defs)
  then show ?thesis
    by (simp add: walk_ends_def node_name_def sample_defs)
qed

text \<open>
  C6. Take the chain of names that the walker reads for a file (the file's own name, then
  the names of its ancestors, up to the node where the walk ends), with no separator \<^verbatim>\<open>/\<close>
  in any name and a file name that is not empty. When the name of the shared root is none
  of the names of the chain, the whole chain counts as relative: the file's name is the
  file name, and the names of all its ancestors, top-down and joined by \<^verbatim>\<open>/\<close>, are the
  relative folder path.
\<close>

theorem relative_path_fallback:
  assumes "parent_chain drive (file_id # ancestors)"
    and "walk_ends drive (file_id # ancestors)"
    and "length ancestors \<le> max_depth"
    and "files_get drive shared_folder_id = Returns shared"
    and "name shared \<notin> set (map (node_name drive) (file_id # ancestors))"
    and "\<forall>n \<in> set (map (node_name drive) (file_id # ancestors)). slash_free n"
    and "node_name drive file_id \<noteq> []"
  shows "fst (get_relative_path_from_shared_folder drive s file_id shared_folder_id)
           = (Some (node_name drive file_id),
              Some (str_join ''/'' (rev (map (node_name drive) ancestors))))"
proof -
  let ?names = "rev (map (node_name drive) (file_id # ancestors))"
  have path: "fst (get_drive_path drive s file_id) = Some (str_join ''/'' ?names)"
    using assms(1-3) by (rule get_drive_path_chain_ends)
  have "\<forall>n \<in> set ?names. slash_free n"
    using assms(6) by simp
  then have parts: "str_split CHR ''/'' (str_join ''/'' ?names) = ?names"
    by (rule split_joined_names) simp
  have ne: "str_join ''/'' ?names \<noteq> []"
  proof
    assume "str_join ''/'' ?names = []"
    with parts have "?names = [[]]" by simp
    with assms(7) show False by simp
  qed
  have absent: "name shared \<notin> set (str_split CHR ''/'' (str_join ''/'' ?names))"
    using assms(5) parts by simp
  from get_relative_path_not_found [OF path ne assms(4) absent] parts
  show ?thesis by simp
qed

theorem relative_path_fallback_witness:
  "fst (get_relative_path_from_shared_folder sample_drive fresh ''f1'' ''other'')
     = (Some ''Q3.gsheet'', Some ''My Drive/Shared/Finance/2025'')"
proof -
  let ?other = "\<lparr>name = ''Elsewhere'', parents = [], mimeType = Some folder_type\<rparr>"
  have chain: "parent_chain sample_drive (''f1'' # [''d2'', ''d1'', ''root'', ''top''])"
    by (simp add: sample_defs)
  have ends: "walk_ends sample_drive (''f1'' # [''d2'', ''d1'', ''root'', ''top''])"
    by (simp add: walk_ends_def sample_defs)
  have len: "length [''d2'', ''d1'', ''root'', ''top''] \<le> max_depth"
    by (simp add: max_depth_def)
  have other: "files_get sample_drive ''other'' = Returns ?other"
    by (simp add: sample_defs)
  have absent: "name ?other \<notin> set (map (node_name sample_drive)
      (''f1'' # [''d2'', ''d1'', ''root'', ''top'']))"
    by (simp add: node_name_def sample_defs)
  have free: "\<forall>n \<in> set (map (node_name sample_drive)
      (''f1'' # [''d2'', ''d1'', ''root'', ''top''])). slash_free n"
    by (simp add: node_name_def slash_free_def sample_defs)
  have ne: "node_name sample_drive ''f1'' \<noteq> []"
    by (simp add: node_name_def sample_defs)
  from relative_path_fallback [OF chain ends len other absent free ne, of fresh]
  show ?thesis by (simp add: node_name_def sample_defs)
qed

text \<open>
  A file in the folder \<^verbatim>\<open>x/Shared\<close> of \<^verbatim>\<open>My Drive\<close>: the name \<^verbatim>\<open>Shared\<close> of the shared root
  is no name of the chain, and still the relativizer finds it and does not fall back.
\<close>

theorem relative_path_no_fallback:
  "parent_chain sample_drive [''x1'', ''xs'', ''top'']
   \<and> walk_ends sample_drive [''x1'', ''xs'', ''top'']
   \<and> map (node_name sample_drive) [''x1'', ''xs'', ''top''] = [''f.txt'', ''x/Shared'', ''My Drive'']
   \<and> node_name sample_drive ''root'' = ''Shared''
   \<and> ''Shared'' \<notin> set [''f.txt'', ''x/Shared'', ''My Drive'']
   \<and> fst (get_relative_path_from_shared_folder sample_drive fresh ''x1'' ''root'')
       = (Some ''f.txt'', Some [])
   \<and> fst (get_relative_path_from_shared_folder sample_drive fresh ''x1'' ''root'')
       \<noteq> (Some ''f.txt'', Some (str_join ''/'' [''My Drive'', ''x/Shared'']))"
proof -
  have "get_drive_path sample_drive fresh ''x1'' =
     (Some ''My Drive/x/Shared/f.txt'',
      fresh\<lparr>metadata_calls := [''x1'', ''xs'', ''top'']\<rparr>)"
    by (simp add: get_drive_path_def walk_parents.simps get_file_metadata_def max_depth_def
        sample_defs)
  then have "fst (get_relative_path_from_shared_folder sample_drive fresh ''x1'' ''root'')
       = (Some ''f.txt'', Some [])"
    by (simp add: get_relative_path_from_shared_folder_def get_file_metadata_def sample_defs)
  then show ?thesis
    by (simp add: walk_ends_def node_name_def sample_defs)
qed

subsection \<open>Export types and extensions\<close>

lemma download_drive_file_Returns:
  "media drive file_id (fst (export_choice mime_type)) = Returns file_content \<Longrightarrow>
   fst (download_drive_file drive s file_id mime_type)
     = Inr (Some file_content, Some (snd (export_choice mime_type)))"
  by (simp add: download_drive_file_def case_prod_beta)

text \<open>
  C3. The extension that \<open>download_drive_file\<close> returns with the content of a download that
  succeeds: \<^verbatim>\<open>.pdf\<close> for a native document (exported as PDF), \<^verbatim>\<open>.xlsx\<close> for a native
  spreadsheet, \<^verbatim>\<open>.pptx\<close> for a native presentation, \<^verbatim>\<open>.pdf\<close> for every other type that
  starts with \<^verbatim>\<open>application/vnd.google-apps\<close>, and the empty extension for every other type and
  for no type at all, which are downloaded as they are. The destination file name is the
  file name with the extension appended if and only if the file name does not end with it.
\<close>

theorem export_extension:
  "(media drive file_id (Some ''application/pdf'') = Returns file_content \<longrightarrow>
      fst (download_drive_file drive s file_id (Some ''application/vnd.google-apps.document''))
        = Inr (Some file_content, Some ''.pdf''))
   \<and> (media drive file_id
         (Some ''application/vnd.openxmlformats-officedocument.spreadsheetml.sheet'')
           = Returns file_content \<longrightarrow>
      fst (download_drive_file drive s file_id (Some ''application/vnd.google-apps.spreadsheet''))
        = Inr (Some file_content, Some ''.xlsx''))
   \<and> (media drive file_id
         (Some ''application/vnd.openxmlformats-officedocument.presentationml.presentation'')
           = Returns file_content \<longrightarrow>
      fst (download_drive_file drive s file_id (Some ''application/vnd.google-apps.presentation''))
        = Inr (Some file_content, Some ''.pptx''))
   \<and> (startswith m ''application/vnd.google-apps''
        \<and> m \<noteq> ''application/vnd.google-apps.document''
        \<and> m \<noteq> ''application/vnd.google-apps.spreadsheet''
        \<and> m \<noteq> ''application/vnd.google-apps.presentation''
        \<and> media drive file_id (Some ''application/pdf'') = Returns file_content \<longrightarrow>
      fst (download_drive_file drive s file_id (Some m)) = Inr (Some file_content, Some ''.pdf''))
   \<and> (\<not> startswith m ''application/vnd.google-apps''
        \<and> media drive file_id None = Returns file_content \<longrightarrow>
      fst (download_drive_file drive s file_id (Some m)) = Inr (Some file_content, Some []))
   \<and> (media drive file_id None = Returns file_content \<longrightarrow>
      fst (download_drive_file drive s file_id None) = Inr (Some file_content, Some []))
   \<and> gcs_filename file_name (Some extension)
       = (if endswith file_name extension then file_name else file_name @ extension)"
proof (intro conjI impI)
  show "gcs_filename file_name (Some extension)
       = (if endswith file_name extension then file_name else file_name @ extension)"
    by (simp add: gcs_filename_def endswith_def)
next
  assume "startswith m ''application/vnd.google-apps''
        \<and> m \<noteq> ''application/vnd.google-apps.document''
        \<and> m \<noteq> ''application/vnd.google-apps.spreadsheet''
        \<and> m \<noteq> ''application/vnd.google-apps.presentation''
        \<and> media drive file_id (Some ''application/pdf'') = Returns file_content"
  moreover from this have "m \<noteq> []"
    by (auto simp: startswith_def)
  ultimately have "export_choice (Some m) = (Some ''application/pdf'', ''.pdf'')"
    "media drive file_id (Some ''application/pdf'') = Returns file_content"
    by (simp_all add: export_choice_def export_formats_def)
  then show "fst (download_drive_file drive s file_id (Some m))
      = Inr (Some file_content, Some ''.pdf'')"
    using download_drive_file_Returns [of drive file_id "Some m" file_content s] by simp
next
  assume "\<not> startswith m ''application/vnd.google-apps''
        \<and> media drive file_id None = Returns file_content"
  then have "export_choice (Some m) = (None, [])"
    "media drive file_id None = Returns file_content"
    by (simp_all add: export_choice_def)
  then show "fst (download_drive_file drive s file_id (Some m))
      = Inr (Some file_content, Some [])"
    using download_drive_file_Returns [of drive file_id "Some m" file_content s] by simp
qed (simp_all add: download_drive_file_def export_choice_def export_formats_def startswith_def)

theorem export_extension_witness:
  "fst (download_drive_file sample_drive fresh ''f1'' (Some ''application/vnd.google-apps.document''))
     = Inr (Some ''bytes'', Some ''.pdf'')
   \<and> fst (download_drive_file sample_drive fresh ''f1''
            (Some ''application/vnd.google-apps.spreadsheet''))
       = Inr (Some ''bytes'', Some ''.xlsx'')
   \<and> fst (download_drive_file sample_drive fresh ''f1''
            (Some ''application/vnd.google-apps.presentation''))
       = Inr (Some ''bytes'', Some ''.pptx'')
   \<and> fst (download_drive_file sample_drive fresh ''f1''
            (Some ''application/vnd.google-apps.drawing''))
       = Inr (Some ''bytes'', Some ''.pdf'')
   \<and> fst (download_drive_file sample_drive fresh ''s1'' (Some ''text/plain''))
       = Inr (Some ''bytes'', Some [])
   \<and> fst (download_drive_file sample_drive fresh ''s1'' None) = Inr (Some ''bytes'', Some [])
   \<and> gcs_filename ''Q3.gsheet'' (Some ''.xlsx'') = ''Q3.gsheet.xlsx''
   \<and> gcs_filename ''report.pdf'' (Some ''.pdf'') = ''report.pdf''
   \<and> gcs_filename ''report'' (Some []) = ''report''"
proof -
  have media: "media sample_drive ''f1'' export_mime_type = Returns ''bytes''"
    "media sample_drive ''s1'' export_mime_type = Returns ''bytes''" for export_mime_type
    by (simp_all add: sample_defs)
  have native: "startswith ''application/vnd.google-apps.drawing'' ''application/vnd.google-apps''
      \<and> ''application/vnd.google-apps.drawing'' \<noteq> ''application/vnd.google-apps.document''
      \<and> ''application/vnd.google-apps.drawing'' \<noteq> ''application/vnd.google-apps.spreadsheet''
      \<and> ''application/vnd.google-apps.drawing'' \<noteq> ''application/vnd.google-apps.presentation''
      \<and> media sample_drive ''f1'' (Some ''application/pdf'') = Returns ''bytes''"
    by (simp add: startswith_def media)
  have plain: "\<not> startswith ''text/plain'' ''application/vnd.google-apps''
      \<and> media sample_drive ''s1'' None = Returns ''bytes''"
    by (simp add: startswith_def media)
  note f = export_extension [of sample_drive "''f1''" "''bytes''" fresh
      "''application/vnd.google-apps.drawing''" "''Q3.gsheet''" "''.xlsx''"]
  note p = export_extension [of sample_drive "''s1''" "''bytes''" fresh
      "''text/plain''" "''report.pdf''" "''.pdf''"]
  note e = export_extension [of sample_drive "''s1''" "''bytes''" fresh
      "''text/plain''" "''report''" "[]"]
  note 1 = f [THEN conjunct1, THEN mp, OF media(1)]
  note 2 = f [THEN conjunct2, THEN conjunct1, THEN mp, OF media(1)]
  note 3 = f [THEN conjunct2, THEN conjunct2, THEN conjunct1, THEN mp, OF media(1)]
  note 4 = f [THEN conjunct2, THEN conjunct2, THEN conjunct2, THEN conjunct1, THEN mp, OF native]
  note 5 = p [THEN conjunct2, THEN conjunct2, THEN conjunct2, THEN conjunct2, THEN conjunct1,
      THEN mp, OF plain]
  note 6 = p [THEN conjunct2, THEN conjunct2, THEN conjunct2, THEN conjunct2, THEN conjunct2,
      THEN conjunct1, THEN mp, OF media(2)]
  note 7 = f [THEN conjunct2, THEN conjunct2, THEN conjunct2, THEN conjunct2, THEN conjunct2,
      THEN conjunct2]
  note 8 = p [THEN conjunct2, THEN conjunct2, THEN conjunct2, THEN conjunct2, THEN conjunct2,
      THEN conjunct2]
  note 9 = e [THEN conjunct2, THEN conjunct2, THEN conjunct2, THEN conjunct2, THEN conjunct2,
      THEN conjunct2]
  have 7: "gcs_filename ''Q3.gsheet'' (Some ''.xlsx'') = ''Q3.gsheet.xlsx''"
    by (simp add: 7 endswith_def)
  have 8: "gcs_filename ''report.pdf'' (Some ''.pdf'') = ''report.pdf''"
    by (simp add: 8 endswith_def)
  have 9: "gcs_filename ''report'' (Some []) = ''report''"
    by (simp add: 9 endswith_def)
  show ?thesis
    by (intro conjI) (rule 1 2 3 4 5 6 7 8 9)+
qed

subsection \<open>The destination object key\<close>

lemma trailing_separator_last: "trailing_separator s = (s \<noteq> [] \<and> last s = CHR ''/'')"
  by (cases s rule: rev_cases) (simp_all add: trailing_separator_def)

lemma leading_separator_hd: "leading_separator s = (s \<noteq> [] \<and> hd s = CHR ''/'')"
  by (cases s) (simp_all add: leading_separator_def)

lemma doubled_separator_append:
  "doubled_separator (a @ b) =
     (doubled_separator a \<or> doubled_separator b \<or> (trailing_separator a \<and> leading_separator b))"
proof (induction a rule: doubled_separator.induct)
  case 1
  then show ?case by (simp add: trailing_separator_last)
next
  case (2 x)
  then show ?case
    by (cases b) (auto simp: trailing_separator_last leading_separator_hd)
next
  case (3 x y s)
  then show ?case by (auto simp: trailing_separator_last)
qed

lemma doubled_separator_Cons:
  "doubled_separator (c # s) = (doubled_separator s \<or> (c = CHR ''/'' \<and> leading_separator s))"
  by (cases s) (auto simp: leading_separator_def)

lemma trailing_separator_Cons:
  "trailing_separator (c # s) = (if s = [] then c = CHR ''/'' else trailing_separator s)"
  by (simp add: trailing_separator_last)

lemma leading_separator_Cons: "leading_separator (c # s) = (c = CHR ''/'')"
  by (simp add: leading_separator_def)

lemma leading_separator_append:
  "leading_separator (a @ b) = (if a = [] then leading_separator b else leading_separator a)"
  by (cases a) (simp_all add: leading_separator_def)

lemma trailing_separator_append:
  "b \<noteq> [] \<Longrightarrow> trailing_separator (a @ b) = trailing_separator b"
  by (simp add: trailing_separator_last)

lemma gcs_object_name_shape:
  "gcs_object_name cfg (Some rel) filename =
      (if rel = [] then GCS_BASE_PATH cfg @ ''/'' @ filename
       else GCS_BASE_PATH cfg @ ''/'' @ rel @ ''/'' @ filename)"
  by (simp add: gcs_object_name_def gcs_folder_path_def)

lemma gcs_object_name_clean:
  assumes "\<not> doubled_separator (GCS_BASE_PATH cfg)" and "\<not> trailing_separator (GCS_BASE_PATH cfg)"
    and "rel = [] \<or> clean_component rel" and "clean_component filename"
  shows "\<not> doubled_separator (gcs_object_name cfg (Some rel) filename)
        \<and> \<not> trailing_separator (gcs_object_name cfg (Some rel) filename)"
  using assms
  by (auto simp: gcs_object_name_shape clean_component_def doubled_separator_append
      trailing_separator_append doubled_separator_Cons trailing_separator_Cons
      leading_separator_Cons leading_separator_append
      simp del: doubled_separator.simps)

text \<open>
  C2. The object key is the base prefix, \<^verbatim>\<open>/\<close>, the relative folder path, \<^verbatim>\<open>/\<close> and the file
  name when the relative folder path is not empty, and the base prefix, \<^verbatim>\<open>/\<close> and the file
  name when it is empty. It has no doubled and no trailing separator when the base prefix
  has none and the relative folder path (if not empty) and the file name bring none: no
  doubled separator inside, none at their start and none at their end. For the relative
  path \<^verbatim>\<open>A/B\<close>, the file name \<^verbatim>\<open>report\<close> and the prefix \<^verbatim>\<open>X\<close> the key is \<^verbatim>\<open>X/A/B/report\<close>, and
  \<^verbatim>\<open>X/report\<close> for the empty relative path.
\<close>

theorem object_key_shape:
  "gcs_object_name cfg (Some []) filename = GCS_BASE_PATH cfg @ ''/'' @ filename
   \<and> (rel \<noteq> [] \<longrightarrow>
        gcs_object_name cfg (Some rel) filename = GCS_BASE_PATH cfg @ ''/'' @ rel @ ''/'' @ filename)
   \<and> (\<not> doubled_separator (GCS_BASE_PATH cfg) \<and> \<not> trailing_separator (GCS_BASE_PATH cfg)
        \<and> (rel = [] \<or> clean_component rel) \<and> clean_component filename \<longrightarrow>
        \<not> doubled_separator (gcs_object_name cfg (Some rel) filename)
        \<and> \<not> trailing_separator (gcs_object_name cfg (Some rel) filename))
   \<and> gcs_object_name sample_config (Some ''A/B'') ''report'' = ''X/A/B/report''
   \<and> gcs_object_name sample_config (Some []) ''report'' = ''X/report''"
proof (intro conjI impI)
  show "gcs_object_name cfg (Some []) filename = GCS_BASE_PATH cfg @ ''/'' @ filename"
    by (simp add: gcs_object_name_shape)
  show "gcs_object_name cfg (Some rel) filename = GCS_BASE_PATH cfg @ ''/'' @ rel @ ''/'' @ filename"
    if "rel \<noteq> []"
    using that by (simp add: gcs_object_name_shape)
  show "gcs_object_name sample_config (Some ''A/B'') ''report'' = ''X/A/B/report''"
    by (simp add: gcs_object_name_shape sample_config_def)
  show "gcs_object_name sample_config (Some []) ''report'' = ''X/report''"
    by (simp add: gcs_object_name_shape sample_config_def)
next
  assume a: "\<not> doubled_separator (GCS_BASE_PATH cfg) \<and> \<not> trailing_separator (GCS_BASE_PATH cfg)
        \<and> (rel = [] \<or> clean_component rel) \<and> clean_component filename"
  then have c: "\<not> doubled_separator (gcs_object_name cfg (Some rel) filename)
        \<and> \<not> trailing_separator (gcs_object_name cfg (Some rel) filename)"
    by (intro gcs_object_name_clean) simp_all
  from c show "\<not> doubled_separator (gcs_object_name cfg (Some rel) filename)" by simp
  from c show "\<not> trailing_separator (gcs_object_name cfg (Some rel) filename)" by simp
qed

theorem object_key_shape_witness:
  "gcs_object_name sample_config (Some ''Finance/2025'') ''Q3.gsheet.xlsx''
     = ''X/Finance/2025/Q3.gsheet.xlsx''
   \<and> \<not> doubled_separator (gcs_object_name sample_config (Some ''Finance/2025'') ''Q3.gsheet.xlsx'')
   \<and> \<not> trailing_separator (gcs_object_name sample_config (Some ''Finance/2025'') ''Q3.gsheet.xlsx'')"
proof -
  have a: "''Finance/2025'' \<noteq> []" by simp
  have b: "\<not> doubled_separator (GCS_BASE_PATH sample_config)
      \<and> \<not> trailing_separator (GCS_BASE_PATH sample_config)
      \<and> (''Finance/2025'' = [] \<or> clean_component ''Finance/2025'')
      \<and> clean_component ''Q3.gsheet.xlsx''"
    by (simp add: sample_config_def clean_component_def trailing_separator_def
        leading_separator_def)
  note t = object_key_shape [of sample_config "''Q3.gsheet.xlsx''" "''Finance/2025''"]
  from t a have "gcs_object_name sample_config (Some ''Finance/2025'') ''Q3.gsheet.xlsx''
      = GCS_BASE_PATH sample_config @ ''/'' @ ''Finance/2025'' @ ''/'' @ ''Q3.gsheet.xlsx''"
    by blast
  then have eq: "gcs_object_name sample_config (Some ''Finance/2025'') ''Q3.gsheet.xlsx''
      = ''X/Finance/2025/Q3.gsheet.xlsx''"
    by (simp add: sample_config_def)
  from t b have "\<not> doubled_separator
        (gcs_object_name sample_config (Some ''Finance/2025'') ''Q3.gsheet.xlsx'')
      \<and> \<not> trailing_separator
        (gcs_object_name sample_config (Some ''Finance/2025'') ''Q3.gsheet.xlsx'')"
    by blast
  with eq show ?thesis by blast
qed

subsection \<open>The webhook handler\<close>

lemma validate_file_path_True: "validate_file_path relative_folder_path"
  by (simp add: validate_file_path_def validate_parts_True split: option.split)

text \<open>The handler up to the first fetch.\<close>

lemma handle_webhook_no_metadata:
  assumes "py_or (file_id_field data) (id_field data) = Some file_id" and "file_id \<noteq> []"
    and "drive_auth env = Some drive" and "gcs_auth env = Some gcs"
  shows "files_get drive file_id = HttpError \<Longrightarrow>
           handle_webhook cfg env s data =
             ((ErrorBody ''Could not retrieve file metadata'', 404),
              s\<lparr>metadata_calls := metadata_calls s @ [file_id]\<rparr>)"
    and "files_get drive file_id = Raises e \<Longrightarrow>
           handle_webhook cfg env s data =
             ((ErrorBody e, 500), s\<lparr>metadata_calls := metadata_calls s @ [file_id]\<rparr>)"
    and "files_get drive file_id = Returns m \<Longrightarrow>
         mimeType m = Some ''application/vnd.google-apps.folder'' \<Longrightarrow>
           handle_webhook cfg env s data =
             ((FolderSkipped ''Skipped folder - only processing files'' file_id, 200),
              s\<lparr>metadata_calls := metadata_calls s @ [file_id]\<rparr>)"
  using assms
  by (simp_all add: handle_webhook_def authenticate_drive_def authenticate_gcs_def
      get_file_metadata_def)

text \<open>The handler on a file, from the result of the relativizer on.\<close>

lemma handle_webhook_file:
  assumes "py_or (file_id_field data) (id_field data) = Some file_id" and "file_id \<noteq> []"
    and "drive_auth env = Some drive" and "gcs_auth env = Some gcs"
    and "files_get drive file_id = Returns m"
    and "mimeType m \<noteq> Some ''application/vnd.google-apps.folder''"
    and "get_relative_path_from_shared_folder drive
           (s\<lparr>metadata_calls := metadata_calls s @ [file_id]\<rparr>) file_id (SHARED_FOLDER_ID cfg)
         = ((fn, rel), s2)"
    and "s3 = (if rel \<noteq> None \<and> rel \<noteq> Some []
               then snd (create_gcs_folder_structure gcs s2 (BUCKET_NAME cfg)
                           (gcs_folder_path cfg rel))
               else s2)"
    and "s4 = s3\<lparr>media_calls := media_calls s3 @ [(file_id, fst (export_choice (mimeType m)))]\<rparr>"
  shows "handle_webhook cfg env s data =
     (case fn of
        None \<Rightarrow> ((ErrorBody ''Could not determine file path'', 500), s2)
      | Some file_name \<Rightarrow>
          if file_name = [] then ((ErrorBody ''Could not determine file path'', 500), s2)
          else
            (case media drive file_id (fst (export_choice (mimeType m))) of
               Raises e \<Rightarrow> ((ErrorBody e, 500), s4)
             | HttpError \<Rightarrow> ((ErrorBody ''Could not download file from Drive'', 500), s4)
             | Returns file_content \<Rightarrow>
                 (let object_name =
                        gcs_object_name cfg rel
                          (gcs_filename file_name (Some (snd (export_choice (mimeType m)))))
                  in if blob_raises gcs (BUCKET_NAME cfg) object_name then
                       ((ErrorBody (''Failed to replicate: '' @ file_name), 500),
                        s4\<lparr>gcs_writes := gcs_writes s4 @ [(BUCKET_NAME cfg, object_name)]\<rparr>)
                     else
                       ((Replicated
                           (''Successfully replicated: '' @ file_name @ '' to '' @ object_name)
                           file_name (name m) rel object_name file_id (mimeType m), 200),
                        s4\<lparr>gcs_writes := gcs_writes s4 @ [(BUCKET_NAME cfg, object_name)],
                            blobs := (blobs s4)((BUCKET_NAME cfg, object_name)
                                       \<mapsto> file_content)\<rparr>))))"
proof -
  have body: "handle_webhook cfg env s data =
     (case fn of
        None \<Rightarrow> ((ErrorBody ''Could not determine file path'', 500), s2)
      | Some file_name \<Rightarrow>
          if file_name = [] then ((ErrorBody ''Could not determine file path'', 500), s2)
          else
            (case download_drive_file drive s3 file_id (mimeType m) of
               (Inl e, s4) \<Rightarrow> ((ErrorBody e, 500), s4)
             | (Inr (None, extension), s4) \<Rightarrow>
                 ((ErrorBody ''Could not download file from Drive'', 500), s4)
             | (Inr (Some file_content, extension), s4) \<Rightarrow>
                 (let object_name =
                        gcs_object_name cfg rel (gcs_filename file_name extension)
                  in case upload_to_gcs gcs s4 (BUCKET_NAME cfg) object_name file_content of
                       (True, s5) \<Rightarrow>
                         ((Replicated
                             (''Successfully replicated: '' @ file_name @ '' to '' @ object_name)
                             file_name (name m) rel object_name file_id (mimeType m), 200), s5)
                     | (False, s5) \<Rightarrow>
                         ((ErrorBody (''Failed to replicate: '' @ file_name), 500), s5))))"
    using assms(1-7) unfolding assms(8)
    by (simp add: handle_webhook_def authenticate_drive_def authenticate_gcs_def
        get_file_metadata_def validate_file_path_True Let_def
        split: option.splits)
  have down: "download_drive_file drive s3 file_id (mimeType m) =
     (case media drive file_id (fst (export_choice (mimeType m))) of
        Returns file_content \<Rightarrow>
          (Inr (Some file_content, Some (snd (export_choice (mimeType m)))), s4)
      | HttpError \<Rightarrow> (Inr (None, None), s4)
      | Raises e \<Rightarrow> (Inl e, s4))"
    unfolding assms(9)
    by (simp add: download_drive_file_def case_prod_beta split: answer.splits)
  show ?thesis
    unfolding body down
    by (simp add: upload_to_gcs_def Let_def split: option.splits answer.splits)
qed

lemma get_relative_path_state:
  "\<exists>calls. snd (get_relative_path_from_shared_folder drive s file_id shared_folder_id)
             = s\<lparr>metadata_calls := metadata_calls s @ calls\<rparr>"
proof -
  from get_drive_path_state [of drive s file_id]
  obtain calls where c: "snd (get_drive_path drive s file_id)
      = s\<lparr>metadata_calls := metadata_calls s @ file_id # calls\<rparr>"
    by blast
  let ?s1 = "s\<lparr>metadata_calls := metadata_calls s @ file_id # calls\<rparr>"
  let ?r = "get_relative_path_from_shared_folder drive s file_id shared_folder_id"
  have "snd ?r = ?s1
      \<or> snd ?r = ?s1\<lparr>metadata_calls := metadata_calls ?s1 @ [shared_folder_id]\<rparr>"
    using c
    by (cases "get_drive_path drive s file_id")
      (auto simp: get_relative_path_from_shared_folder_def get_file_metadata_def Let_def
        split: option.splits answer.splits)
  then have "snd ?r = s\<lparr>metadata_calls := metadata_calls s @ (file_id # calls)\<rparr>
      \<or> snd ?r = s\<lparr>metadata_calls := metadata_calls s @ (file_id # calls @ [shared_folder_id])\<rparr>"
    by simp
  then show ?thesis by blast
qed

text \<open>
  C9. A request for an item whose MIME type is the folder type is answered with status 200
  and the skip message. The state after it is the state before it with the one metadata
  request for the item added: no request of the relativizer, no download, no write, and
  the objects of the bucket are what they were.
\<close>

theorem folder_skipped:
  assumes "py_or (file_id_field data) (id_field data) = Some file_id" and "file_id \<noteq> []"
    and "drive_auth env = Some drive" and "gcs_auth env = Some gcs"
    and "files_get drive file_id = Returns m"
    and "mimeType m = Some ''application/vnd.google-apps.folder''"
  shows "handle_webhook cfg env s data =
           ((FolderSkipped ''Skipped folder - only processing files'' file_id, 200),
            s\<lparr>metadata_calls := metadata_calls s @ [file_id]\<rparr>)
         \<and> media_calls (snd (handle_webhook cfg env s data)) = media_calls s
         \<and> gcs_writes (snd (handle_webhook cfg env s data)) = gcs_writes s
         \<and> blobs (snd (handle_webhook cfg env s data)) = blobs s"
  using handle_webhook_no_metadata(3) [OF assms] by simp

theorem folder_skipped_witness:
  "handle_webhook sample_config sample_env fresh (webhook_for ''root'') =
     ((FolderSkipped ''Skipped folder - only processing files'' ''root'', 200),
      fresh\<lparr>metadata_calls := [''root'']\<rparr>)
   \<and> blobs (snd (handle_webhook sample_config sample_env fresh (webhook_for ''root'')))
       = blobs fresh"
proof -
  have id: "py_or (file_id_field (webhook_for ''root'')) (id_field (webhook_for ''root''))
      = Some ''root''" "''root'' \<noteq> []"
    by (simp_all add: py_or_def webhook_for_def)
  have auth: "drive_auth sample_env = Some sample_drive" "gcs_auth sample_env = Some sample_gcs"
    by (simp_all add: sample_env_def)
  have m: "files_get sample_drive ''root''
      = Returns \<lparr>name = ''Shared'', parents = [''top''], mimeType = Some folder_type\<rparr>"
    by (simp add: sample_defs)
  have t: "mimeType \<lparr>name = ''Shared'', parents = [''top''], mimeType = Some folder_type\<rparr>
      = Some ''application/vnd.google-apps.folder''"
    by (simp add: folder_type_def)
  from folder_skipped [OF id auth m t, of sample_config fresh]
  show ?thesis by (simp add: fresh_def)
qed


lemmas handler_defs =
  handle_webhook_def py_or_def authenticate_drive_def authenticate_gcs_def
  get_relative_path_from_shared_folder_def get_drive_path_def walk_parents.simps
  get_file_metadata_def max_depth_def validate_file_path_True
  create_gcs_folder_structure_def download_drive_file_def export_choice_def export_formats_def
  startswith_def gcs_filename_def endswith_def upload_to_gcs_def gcs_object_name_def
  gcs_folder_path_def Let_def

lemma sample_run_root:
  "fst (handle_webhook sample_config sample_env fresh (webhook_for ''root''))
     = (FolderSkipped ''Skipped folder - only processing files'' ''root'', 200)"
  by (simp add: handler_defs sample_defs)

lemma sample_run_s1:
  "fst (handle_webhook sample_config sample_env fresh (webhook_for ''s1'')) =
     (Replicated ''Successfully replicated: report to X/A//report'' ''report'' ''report''
        (Some ''A/'') ''X/A//report'' ''s1'' (Some ''text/plain''), 200)"
  by (simp add: handler_defs sample_defs)

lemma sample_relative_root:
  "fst (get_relative_path_from_shared_folder sample_drive fresh ''root'' ''root'')
     = (None, Some [])"
  by (simp add: handler_defs sample_defs)



text \<open>
  A file \<^verbatim>\<open>report\<close> in a folder named \<^verbatim>\<open>A/\<close> of the shared root: the relative folder path is
  \<^verbatim>\<open>A/\<close>, and the key that the handler writes to has a doubled separator.
\<close>

theorem object_key_doubled_separator:
  "fst (handle_webhook sample_config sample_env fresh (webhook_for ''s1'')) =
     (Replicated ''Successfully replicated: report to X/A//report'' ''report'' ''report''
        (Some ''A/'') ''X/A//report'' ''s1'' (Some ''text/plain''), 200)
   \<and> gcs_object_name sample_config (Some ''A/'') ''report'' = ''X/A//report''
   \<and> doubled_separator (gcs_object_name sample_config (Some ''A/'') ''report'')"
proof -
  have "gcs_object_name sample_config (Some ''A/'') ''report'' = ''X/A//report''"
    by (simp add: gcs_object_name_shape sample_config_def)
  then show ?thesis
    using sample_run_s1 by simp
qed

text \<open>
  C10. Take the chain of names that the walker reads for an item, with no separator in any
  name, and let the item's own name be the (non-empty) name of the shared root and no
  ancestor have that name: the name of the shared root is the last component of the path.
  Then the relativizer returns no file name and the empty folder path. For a request for
  such an item the handler answers with status 500 and \<^verbatim>\<open>Could not determine file path\<close>,
  and downloads and writes nothing, when the item is not a folder; when it is a folder (as
  the shared root itself is), the handler answers with status 200 and the skip message.
\<close>

theorem shared_root_last_component:
  assumes "parent_chain drive (file_id # ancestors)"
    and "walk_ends drive (file_id # ancestors)"
    and "length ancestors \<le> max_depth"
    and "files_get drive shared_folder_id = Returns shared"
    and "node_name drive file_id = name shared" and "name shared \<noteq> []"
    and "name shared \<notin> set (map (node_name drive) ancestors)"
    and "\<forall>n \<in> set (map (node_name drive) (file_id # ancestors)). slash_free n"
  shows
    "fst (get_relative_path_from_shared_folder drive s file_id shared_folder_id) = (None, Some [])
     \<and> (py_or (file_id_field data) (id_field data) = Some file_id \<and> file_id \<noteq> []
          \<and> drive_auth env = Some drive \<and> gcs_auth env = Some gcs
          \<and> SHARED_FOLDER_ID cfg = shared_folder_id
          \<and> files_get drive file_id = Returns m \<longrightarrow>
          (mimeType m \<noteq> Some ''application/vnd.google-apps.folder'' \<longrightarrow>
             fst (handle_webhook cfg env s data)
               = (ErrorBody ''Could not determine file path'', 500)
             \<and> media_calls (snd (handle_webhook cfg env s data)) = media_calls s
             \<and> gcs_writes (snd (handle_webhook cfg env s data)) = gcs_writes s
             \<and> blobs (snd (handle_webhook cfg env s data)) = blobs s)
        \<and> (mimeType m = Some ''application/vnd.google-apps.folder'' \<longrightarrow>
             fst (handle_webhook cfg env s data)
               = (FolderSkipped ''Skipped folder - only processing files'' file_id, 200)))"
proof -
  let ?names = "rev (map (node_name drive) (file_id # ancestors))"
  have rel: "fst (get_relative_path_from_shared_folder drive s' file_id shared_folder_id)
      = (None, Some [])" for s'
  proof -
    have path: "fst (get_drive_path drive s' file_id) = Some (str_join ''/'' ?names)"
      using assms(1-3) by (rule get_drive_path_chain_ends)
    have "\<forall>n \<in> set ?names. slash_free n"
      using assms(8) by simp
    then have split: "str_split CHR ''/'' (str_join ''/'' ?names) = ?names"
      by (rule split_joined_names) simp
    then have parts: "str_split CHR ''/'' (str_join ''/'' ?names)
        = rev (map (node_name drive) ancestors) @ name shared # []"
      using assms(5) by simp
    have ne: "str_join ''/'' ?names \<noteq> []"
    proof
      assume "str_join ''/'' ?names = []"
      with split have "?names = [[]]" by simp
      with assms(5,6) show False by simp
    qed
    have first: "name shared \<notin> set (rev (map (node_name drive) ancestors))"
      using assms(7) by simp
    from get_relative_path_found [OF path ne assms(4) parts first]
    show ?thesis by simp
  qed
  have handler: "fst (handle_webhook cfg env s data)
        = (ErrorBody ''Could not determine file path'', 500)
      \<and> media_calls (snd (handle_webhook cfg env s data)) = media_calls s
      \<and> gcs_writes (snd (handle_webhook cfg env s data)) = gcs_writes s
      \<and> blobs (snd (handle_webhook cfg env s data)) = blobs s"
    if r: "py_or (file_id_field data) (id_field data) = Some file_id" "file_id \<noteq> []"
      "drive_auth env = Some drive" "gcs_auth env = Some gcs"
      "SHARED_FOLDER_ID cfg = shared_folder_id" "files_get drive file_id = Returns m"
      "mimeType m \<noteq> Some ''application/vnd.google-apps.folder''"
  proof -
    let ?s1 = "s\<lparr>metadata_calls := metadata_calls s @ [file_id]\<rparr>"
    let ?R = "get_relative_path_from_shared_folder drive ?s1 file_id (SHARED_FOLDER_ID cfg)"
    obtain calls where c: "snd ?R = ?s1\<lparr>metadata_calls := metadata_calls ?s1 @ calls\<rparr>"
      using get_relative_path_state [of drive ?s1 file_id "SHARED_FOLDER_ID cfg"] by blast
    have R: "?R = ((None, Some []), snd ?R)"
      using rel [of ?s1] r(5) by (cases ?R) simp
    from handle_webhook_file [OF r(1-4) r(6,7) R refl refl]
    have "handle_webhook cfg env s data
        = ((ErrorBody ''Could not determine file path'', 500), snd ?R)"
      by simp
    with c show ?thesis by simp
  qed
  have folder: "fst (handle_webhook cfg env s data)
        = (FolderSkipped ''Skipped folder - only processing files'' file_id, 200)"
    if r: "py_or (file_id_field data) (id_field data) = Some file_id" "file_id \<noteq> []"
      "drive_auth env = Some drive" "gcs_auth env = Some gcs"
      "files_get drive file_id = Returns m"
      "mimeType m = Some ''application/vnd.google-apps.folder''"
    using handle_webhook_no_metadata(3) [OF r] by simp
  from rel [of s] handler folder show ?thesis
    by blast
qed

theorem shared_root_last_component_witness:
  "fst (get_relative_path_from_shared_folder sample_drive fresh ''g1'' ''root'') = (None, Some [])
   \<and> fst (handle_webhook sample_config sample_env fresh (webhook_for ''g1''))
       = (ErrorBody ''Could not determine file path'', 500)
   \<and> blobs (snd (handle_webhook sample_config sample_env fresh (webhook_for ''g1'')))
       = blobs fresh"
proof -
  let ?shared = "\<lparr>name = ''Shared'', parents = [''top''], mimeType = Some folder_type\<rparr>"
  let ?m = "\<lparr>name = ''Shared'', parents = [], mimeType = Some ''text/plain''\<rparr>"
  have chain: "parent_chain sample_drive (''g1'' # [])"
    by (simp add: sample_defs)
  have ends: "walk_ends sample_drive (''g1'' # [])"
    by (simp add: walk_ends_def sample_defs)
  have len: "length ([] :: string list) \<le> max_depth"
    by simp
  have root: "files_get sample_drive ''root'' = Returns ?shared"
    by (simp add: sample_defs)
  have same: "node_name sample_drive ''g1'' = name ?shared" "name ?shared \<noteq> []"
    by (simp_all add: node_name_def sample_defs)
  have above: "name ?shared \<notin> set (map (node_name sample_drive) [])"
    by simp
  have free: "\<forall>n \<in> set (map (node_name sample_drive) (''g1'' # [])). slash_free n"
    by (simp add: node_name_def slash_free_def sample_defs)
  note t = shared_root_last_component [OF chain ends len root same above free,
      where s = fresh and data = "webhook_for ''g1''" and env = sample_env
        and cfg = sample_config and m = ?m]
  have req: "py_or (file_id_field (webhook_for ''g1'')) (id_field (webhook_for ''g1''))
        = Some ''g1'' \<and> ''g1'' \<noteq> []
      \<and> drive_auth sample_env = Some sample_drive \<and> gcs_auth sample_env = Some sample_gcs
      \<and> SHARED_FOLDER_ID sample_config = ''root''
      \<and> files_get sample_drive ''g1'' = Returns ?m"
    by (simp add: py_or_def sample_defs)
  have plain: "mimeType ?m \<noteq> Some ''application/vnd.google-apps.folder''"
    by simp
  note r = t [THEN conjunct2, THEN mp, OF req, THEN conjunct1, THEN mp, OF plain]
  show ?thesis
    by (intro conjI) (rule t [THEN conjunct1] r [THEN conjunct1]
        r [THEN conjunct2, THEN conjunct2, THEN conjunct2])+
qed

text \<open>
  The shared root itself: its name is the last component of its path and the relativizer
  returns no file name, but the handler answers the request for it with status 200.
\<close>

theorem shared_root_itself_skipped:
  "SHARED_FOLDER_ID sample_config = ''root''
   \<and> fst (get_drive_path sample_drive fresh ''root'') = Some ''My Drive/Shared''
   \<and> node_name sample_drive ''root'' = ''Shared''
   \<and> fst (get_relative_path_from_shared_folder sample_drive fresh ''root'' ''root'')
       = (None, Some [])
   \<and> fst (handle_webhook sample_config sample_env fresh (webhook_for ''root''))
       = (FolderSkipped ''Skipped folder - only processing files'' ''root'', 200)
   \<and> snd (fst (handle_webhook sample_config sample_env fresh (webhook_for ''root''))) \<noteq> 500"
proof -
  have "fst (get_drive_path sample_drive fresh ''root'') = Some ''My Drive/Shared''"
    by (simp add: handler_defs sample_defs)
  then show ?thesis
    using sample_relative_root sample_run_root
    by (simp add: node_name_def sample_defs)
qed

end
